theory Spec2Isabelle
  imports Main
begin

section \<open>Lead scraper: data model\<close>

text \<open>
  The intelligence profile that \<^verbatim>\<open>scrape_company_website\<close> stores under the key
  \<^verbatim>\<open>hardware_intelligence\<close>. The Python value is a dict; the nine category lists and the
  four bookkeeping entries are always present, the two context lists are only set by
  \<^verbatim>\<open>_extract_additional_context\<close> (absent keys are \<open>None\<close>). Python's \<^verbatim>\<open>str\<close> is
  modelled by \<open>string\<close>; the character classes used below are those of ASCII text.
\<close>

record hardware_intelligence =
  infrastructure_needs :: "string list"
  growth_indicators :: "string list"
  technical_pain_points :: "string list"
  decision_makers :: "string list"
  tech_stack :: "string list"
  hardware_opportunities :: "string list"
  urgency_signals :: "string list"
  company_scale :: "string list"
  budget_indicators :: "string list"
  scraping_success :: bool
  scraping_error :: "string option"
  content_preview :: string
  hardware_readiness_score :: int
  business_context :: "string list option"
  industry_context :: "string list option"

section \<open>Strings\<close>

text \<open>
  The \<^verbatim>\<open>str\<close> methods the scraper calls, on ASCII text: \<^verbatim>\<open>lower\<close>, \<^verbatim>\<open>strip\<close>,
  \<^verbatim>\<open>rstrip(chars)\<close>, \<^verbatim>\<open>split()\<close>, \<^verbatim>\<open>sep.join\<close>, the substring test \<^verbatim>\<open>in\<close> and
  \<^verbatim>\<open>replace\<close>. Whitespace is what \<^verbatim>\<open>str.isspace\<close> accepts below code point 128.
\<close>

definition lower_char :: "char \<Rightarrow> char" where
  "lower_char c =
     (let n = (of_char c :: nat) in if 65 \<le> n \<and> n \<le> 90 then char_of (n + 32) else c)"

definition upper_char :: "char \<Rightarrow> char" where
  "upper_char c =
     (let n = (of_char c :: nat) in if 97 \<le> n \<and> n \<le> 122 then char_of (n - 32) else c)"

definition is_space :: "char \<Rightarrow> bool" where
  "is_space c = (let n = (of_char c :: nat) in (9 \<le> n \<and> n \<le> 13) \<or> (28 \<le> n \<and> n \<le> 32))"

definition is_digit :: "char \<Rightarrow> bool" where
  "is_digit c = (let n = (of_char c :: nat) in 48 \<le> n \<and> n \<le> 57)"

definition is_word :: "char \<Rightarrow> bool" where
  "is_word c = (let n = (of_char c :: nat) in
     (48 \<le> n \<and> n \<le> 57) \<or> (65 \<le> n \<and> n \<le> 90) \<or> (97 \<le> n \<and> n \<le> 122) \<or> n = 95)"

definition lower :: "string \<Rightarrow> string" where
  "lower s = map lower_char s"

definition strip :: "string \<Rightarrow> string" where
  "strip s = rev (dropWhile is_space (rev (dropWhile is_space s)))"

definition rstrip_chars :: "string \<Rightarrow> string \<Rightarrow> string" where
  "rstrip_chars chars s = rev (dropWhile (\<lambda>c. c \<in> set chars) (rev s))"

text \<open>\<^verbatim>\<open>text.split()\<close>: the maximal runs of non-whitespace characters, in order.\<close>

fun split_acc :: "string \<Rightarrow> string \<Rightarrow> string list" where
  "split_acc cur [] = (if cur = [] then [] else [cur])"
| "split_acc cur (c # cs) =
     (if is_space c then (if cur = [] then split_acc [] cs else cur # split_acc [] cs)
      else split_acc (cur @ [c]) cs)"

definition split :: "string \<Rightarrow> string list" where
  "split s = split_acc [] s"

fun join :: "string \<Rightarrow> string list \<Rightarrow> string" where
  "join sep [] = []"
| "join sep [w] = w"
| "join sep (w # ws) = w @ sep @ join sep ws"

text \<open>\<^verbatim>\<open>sub in s\<close> on strings.\<close>

fun contains :: "string \<Rightarrow> string \<Rightarrow> bool" where
  "contains [] sub = (sub = [])"
| "contains (c # cs) sub = (take (length sub) (c # cs) = sub \<or> contains cs sub)"

text \<open>\<^verbatim>\<open>s.replace(old, new)\<close> for a non-empty \<^verbatim>\<open>old\<close>: left to right, without overlap.\<close>

function replace :: "string \<Rightarrow> string \<Rightarrow> string \<Rightarrow> string" where
  "replace old new [] = []"
| "replace old new (c # cs) =
     (if old \<noteq> [] \<and> take (length old) (c # cs) = old
      then new @ replace old new (drop (length old - 1) cs)
      else c # replace old new cs)"
  by pat_completeness auto
termination
  by (relation "measure (\<lambda>(old, new, s). length s)") auto

section \<open>Regular expressions\<close>

text \<open>
  The fragment of Python's \<^verbatim>\<open>re\<close> syntax that the pattern tables use: literals, character
  classes (\<^verbatim>\<open>\w\<close>, \<^verbatim>\<open>\d\<close>, \<^verbatim>\<open>\s\<close>, ranges, negation), concatenation, ordered alternation,
  the greedy star and one capturing group. \<^verbatim>\<open>x?\<close>, \<^verbatim>\<open>x+\<close> and \<^verbatim>\<open>x{m,n}\<close> are
  abbreviations.
\<close>

datatype cset = CChar char | CRange char char | CWord | CDigit | CSpace

datatype regex = Eps | Chr char | Any "cset list" | Non "cset list"
  | Seq regex regex | Alt regex regex | Star regex | Grp regex

fun in_cset :: "cset \<Rightarrow> char \<Rightarrow> bool" where
  "in_cset (CChar d) c = (c = d)"
| "in_cset (CRange lo hi) c =
     ((of_char lo :: nat) \<le> of_char c \<and> (of_char c :: nat) \<le> of_char hi)"
| "in_cset CWord c = is_word c"
| "in_cset CDigit c = is_digit c"
| "in_cset CSpace c = is_space c"

text \<open>With \<^verbatim>\<open>re.IGNORECASE\<close> (\<open>ic\<close>) a character matches when either of its cases does.\<close>

definition in_class :: "bool \<Rightarrow> cset list \<Rightarrow> char \<Rightarrow> bool" where
  "in_class ic cs c =
     (list_ex (\<lambda>k. in_cset k c) cs
      \<or> (ic \<and> (list_ex (\<lambda>k. in_cset k (lower_char c)) cs
                \<or> list_ex (\<lambda>k. in_cset k (upper_char c)) cs)))"

definition chr_eq :: "bool \<Rightarrow> char \<Rightarrow> char \<Rightarrow> bool" where
  "chr_eq ic d c = (if ic then lower_char c = lower_char d else c = d)"

text \<open>
  A matcher state is the text still to be read and the content of the capturing group.
  \<open>ends ic r st\<close> lists, in the order in which a backtracking matcher tries them, the
  states in which a match of \<open>r\<close> started at \<open>st\<close> can end: the first alternative before
  the second, one more iteration of a star before stopping. The head of the list is the
  match that \<^verbatim>\<open>re\<close> reports at that position. An iteration of a star that reads no
  character is not repeated.
\<close>

type_synonym mstate = "string \<times> string option"

function ends :: "bool \<Rightarrow> regex \<Rightarrow> mstate \<Rightarrow> mstate list" where
  "ends ic Eps st = [st]"
| "ends ic (Chr d) (s, g) =
     (case s of [] \<Rightarrow> [] | c # t \<Rightarrow> if chr_eq ic d c then [(t, g)] else [])"
| "ends ic (Any cs) (s, g) =
     (case s of [] \<Rightarrow> [] | c # t \<Rightarrow> if in_class ic cs c then [(t, g)] else [])"
| "ends ic (Non cs) (s, g) =
     (case s of [] \<Rightarrow> [] | c # t \<Rightarrow> if in_class ic cs c then [] else [(t, g)])"
| "ends ic (Seq a b) st = concat (map (ends ic b) (ends ic a st))"
| "ends ic (Alt a b) st = ends ic a st @ ends ic b st"
| "ends ic (Star a) (s, g) =
     concat (map (\<lambda>st'. if length (fst st') < length s then ends ic (Star a) st' else [])
                 (ends ic a (s, g))) @ [(s, g)]"
| "ends ic (Grp a) (s, g) =
     map (\<lambda>st'. (fst st', Some (take (length s - length (fst st')) s))) (ends ic a (s, g))"
  by pat_completeness auto
termination
  by (relation "measures [\<lambda>(ic, r, st). size r, \<lambda>(ic, r, st). length (fst st)]") auto

fun has_group :: "regex \<Rightarrow> bool" where
  "has_group (Seq a b) = (has_group a \<or> has_group b)"
| "has_group (Alt a b) = (has_group a \<or> has_group b)"
| "has_group (Star a) = has_group a"
| "has_group (Grp a) = True"
| "has_group _ = False"

text \<open>
  What \<^verbatim>\<open>re.findall\<close> puts in its result for one match: the group when the pattern has
  one (the empty string when it did not take part), the whole match otherwise.
\<close>

definition item :: "bool \<Rightarrow> string \<Rightarrow> mstate \<Rightarrow> string" where
  "item grp s st =
     (if grp then (case snd st of Some x \<Rightarrow> x | None \<Rightarrow> [])
      else take (length s - length (fst st)) s)"

text \<open>
  The scan of \<^verbatim>\<open>re.findall\<close> and \<^verbatim>\<open>re.sub\<close>: leftmost matches without overlap. After an
  empty match the next match at the same position must read a character (\<open>adv\<close>).
\<close>

function findall_at :: "bool \<Rightarrow> regex \<Rightarrow> string \<Rightarrow> bool \<Rightarrow> string list" where
  "findall_at ic r s adv =
     (case filter (\<lambda>st. \<not> adv \<or> length (fst st) < length s) (ends ic r (s, None)) of
        [] \<Rightarrow> (case s of [] \<Rightarrow> [] | c # t \<Rightarrow> findall_at ic r t False)
      | st # _ \<Rightarrow> item (has_group r) s st #
          (if length (fst st) < length s then findall_at ic r (fst st) False
           else if adv then [] else findall_at ic r s True))"
  by pat_completeness auto
termination
  by (relation "measure (\<lambda>(ic, r, s, adv). 2 * length s + (if adv then 0 else 1))") auto

declare findall_at.simps [simp del]

definition findall :: "bool \<Rightarrow> regex \<Rightarrow> string \<Rightarrow> string list" where
  "findall ic r s = findall_at ic r s False"

function sub_at :: "bool \<Rightarrow> regex \<Rightarrow> string \<Rightarrow> string \<Rightarrow> bool \<Rightarrow> string" where
  "sub_at ic r repl s adv =
     (case filter (\<lambda>st. \<not> adv \<or> length (fst st) < length s) (ends ic r (s, None)) of
        [] \<Rightarrow> (case s of [] \<Rightarrow> [] | c # t \<Rightarrow> c # sub_at ic r repl t False)
      | st # _ \<Rightarrow> repl @
          (if length (fst st) < length s then sub_at ic r repl (fst st) False
           else if adv then [] else sub_at ic r repl s True))"
  by pat_completeness auto
termination
  by (relation "measure (\<lambda>(ic, r, repl, s, adv). 2 * length s + (if adv then 0 else 1))") auto

declare sub_at.simps [simp del]

definition re_sub :: "bool \<Rightarrow> regex \<Rightarrow> string \<Rightarrow> string \<Rightarrow> string" where
  "re_sub ic r repl s = sub_at ic r repl s False"

subsection \<open>Abbreviations for writing patterns\<close>

definition W :: "string \<Rightarrow> regex" where
  "W s = foldr (\<lambda>c r. Seq (Chr c) r) s Eps"

definition Opt :: "regex \<Rightarrow> regex" where
  "Opt r = Alt r Eps"

definition Plus :: "regex \<Rightarrow> regex" where
  "Plus r = Seq r (Star r)"

text \<open>\<open>Ws ''need''\<close> is \<^verbatim>\<open>needs?\<close>.\<close>

definition Ws :: "string \<Rightarrow> regex" where
  "Ws s = Seq (W s) (Opt (Chr CHR ''s''))"

fun Alts :: "regex list \<Rightarrow> regex" where
  "Alts [] = Any []"
| "Alts [r] = r"
| "Alts (r # rs) = Alt r (Alts rs)"

fun Seqs :: "regex list \<Rightarrow> regex" where
  "Seqs [] = Eps"
| "Seqs [r] = r"
| "Seqs (r # rs) = Seq r (Seqs rs)"

text \<open>\<open>Rep m n r\<close> is \<^verbatim>\<open>r{m,m+n}\<close>, greedy.\<close>

fun Rep :: "nat \<Rightarrow> nat \<Rightarrow> regex \<Rightarrow> regex" where
  "Rep 0 0 r = Eps"
| "Rep 0 (Suc n) r = Opt (Seq r (Rep 0 n r))"
| "Rep (Suc m) n r = Seq r (Rep m n r)"

abbreviation blank :: regex where
  "blank \<equiv> Chr CHR '' ''"

abbreviation digits :: regex where
  "digits \<equiv> Plus (Any [CDigit])"

section \<open>Pattern tables\<close>

text \<open>
  The tables of \<^verbatim>\<open>_init_hardware_patterns\<close>, pattern by pattern and in the source's order.
  Every group of the source is non-capturing, so \<^verbatim>\<open>findall\<close> returns whole matches.
\<close>

definition infrastructure_patterns :: "regex list" where
  "infrastructure_patterns =
    [Seqs [Alts [W ''server'', W ''hosting'', W ''infrastructure'', W ''cloud'', W ''on-premise'',
                 W ''data center'', W ''hardware''], blank,
           Alts [Ws ''need'', Ws ''requirement'', Ws ''challenge'', Ws ''issue'', Ws ''problem'',
                 Ws ''upgrade'', W ''migration'']],
     Seqs [Alts [W ''looking for'', W ''need'', W ''require'', W ''seeking''], blank,
           Opt (W ''new ''),
           Alts [Ws ''server'', Ws ''workstation'', W ''networking'', W ''storage'', W ''backup'']],
     Seqs [Alts [W ''performance'', W ''speed'', W ''capacity'', W ''storage'', W ''memory'',
                 W ''processing''], blank,
           Alts [Ws ''issue'', Ws ''problem'', Ws ''bottleneck'', Ws ''limitation'']],
     Seqs [Alts [W ''scaling'', W ''expanding'', W ''growing''], blank,
           Alts [W ''infrastructure'', Ws ''system'', Ws ''operation'', W ''team'']],
     Seqs [Alts [W ''outdated'', W ''legacy'', W ''old'', W ''aging''], blank,
           Alts [Ws ''system'', W ''hardware'', W ''equipment'', W ''infrastructure'']]]"

definition growth_patterns :: "regex list" where
  "growth_patterns =
    [Seqs [Alts [W ''hiring'', W ''recruiting'', W ''adding'', W ''expanding''], blank,
           Opt (Seq (Plus (Any [CWord])) blank),
           Alts [W ''team'', Ws ''developer'', Ws ''engineer'', W ''staff'']],
     Alts [W ''new office'', W ''additional location'', W ''expanding to'', W ''opening in''],
     Alts [W ''raised'', W ''funding'', W ''investment'',
           Seq (W ''series '') (Any [CChar CHR ''a'', CChar CHR ''b'', CChar CHR ''c'']),
           W ''venture capital''],
     Seqs [Alts [W ''growing'', W ''scaling'', W ''expanding''], blank,
           Alts [W ''rapidly'', W ''quickly'', W ''fast'', W ''business'', W ''operations'']],
     Seqs [Alts [W ''remote work'', W ''hybrid'', W ''distributed team'', W ''work from home''], blank,
           Alts [W ''setup'', W ''infrastructure'', W ''needs'']],
     Seqs [digits, W ''% '', Alts [W ''growth'', W ''increase''], W '' in '',
           Alts [W ''team'', W ''revenue'', W ''business'']]]"

definition pain_point_patterns :: "regex list" where
  "pain_point_patterns =
    [Seqs [Alts [W ''slow'', W ''sluggish'', W ''performance'', W ''speed''], blank,
           Alts [Ws ''system'', Ws ''application'', Ws ''processe'', Ws ''workflow'']],
     Seqs [Alts [W ''security'', W ''compliance'', W ''data protection'', W ''backup'',
                 W ''disaster recovery''], blank,
           Alts [Ws ''concern'', Ws ''issue'', Ws ''requirement'', Ws ''need'']],
     Alts [W ''downtime'', Ws ''outage'', Ws ''system failure'', Ws ''crashe'',
           Ws ''reliability issue''],
     Seqs [Alts [W ''integration'', W ''compatibility'', W ''connectivity''], blank,
           Alts [Ws ''problem'', Ws ''challenge'', Ws ''issue'']],
     Seqs [Alts [W ''budget'', W ''cost'', W ''expensive'', W ''affordable''], blank,
           Alts [Ws ''constraint'', Ws ''concern'', Ws ''solution'', W ''hardware'']],
     Alts [Ws ''manual processe'', W ''inefficient'', W ''time-consuming'', Ws ''repetitive task'']]"

definition decision_maker_patterns :: "regex list" where
  "decision_maker_patterns =
    [Alts [W ''cto'', W ''chief technology officer'', W ''it director'', W ''it manager'',
           W ''head of it'', W ''technical lead''],
     Alts [Seq (Ws ''operation'') (W '' manager''), Ws ''head of operation'', W ''ops lead''],
     Alts [W ''procurement'', W ''purchasing'', W ''buying'', W ''vendor management''],
     Alts [W ''budget approval'', Ws ''purchasing decision'', W ''it spending'',
           Ws ''technology investment'']]"

definition tech_infrastructure_patterns :: "regex list" where
  "tech_infrastructure_patterns =
    [Alts [W ''aws'', W ''amazon web services'', W ''azure'', W ''google cloud'', W ''gcp'',
           W ''digital ocean'', W ''linode''],
     Alts [W ''cloud'', W ''hosting'', W ''saas'', W ''paas'', W ''iaas'', W ''hybrid cloud'',
           W ''multi-cloud''],
     Alts [W ''docker'', W ''kubernetes'', Ws ''container'', W ''microservices''],
     Alts [W ''ci/cd'', W ''continuous integration'', W ''devops'', W ''automation''],
     Alts [W ''mysql'', W ''postgresql'', W ''mongodb'', W ''redis'', W ''elasticsearch'',
           W ''database''],
     Alts [W ''storage'', W ''backup'', W ''disaster recovery'', W ''data management''],
     Alts [W ''python'', W ''javascript'', W ''react'',
           Seqs [W ''node'', Opt (Chr CHR ''.''), W ''js''],
           W ''angular'', W ''vue'', W ''java'', W ''.net''],
     Alts [W ''web development'', W ''mobile development'', W ''software development''],
     Alts [W ''nginx'', W ''apache'', W ''load balancer'', W ''cdn'', W ''ssl'', W ''security''],
     Alts [W ''monitoring'', W ''logging'', W ''analytics'', W ''performance tracking'']]"

definition hardware_needs_patterns :: "regex list" where
  "hardware_needs_patterns =
    [Seqs [Alts [Ws ''workstation'', Ws ''desktop'', Ws ''laptop'', Ws ''computer''], blank,
           Alts [W ''for'', W ''needed'', W ''required'']],
     Seqs [Alts [W ''high-performance'', W ''gaming'', Ws ''graphic''], blank,
           Alts [Ws ''computer'', Ws ''workstation'', Ws ''rig'']],
     Seqs [Alts [W ''development'', W ''programming'', W ''coding'', W ''design''], blank,
           Alts [Ws ''machine'', Ws ''workstation'', Ws ''setup'']],
     Seqs [Alts [W ''video editing'', W ''3d rendering'', W ''cad'', W ''design''], blank,
           Alts [Ws ''computer'', Ws ''workstation'']],
     Seqs [Alts [W ''networking'', Ws ''switche'', Ws ''router'', Ws ''access point''], blank,
           Alts [W ''equipment'', W ''hardware'', W ''setup'']],
     Seqs [Alts [W ''storage'', W ''nas'', W ''san'', W ''backup''], blank,
           Alts [Ws ''solution'', Ws ''system'', W ''hardware'']]]"

definition urgency_patterns :: "regex list" where
  "urgency_patterns =
    [Seqs [Alts [W ''urgent'', W ''asap'', W ''immediately'', W ''quickly'', W ''soon''], blank,
           Alts [W ''need'', W ''require'', W ''looking'']],
     Alts [W ''deadline'', W ''timeline'',
           Seq (W ''by '')
             (Alts [W ''end of'', Seq (Chr CHR ''q'') (Any [CRange CHR ''1'' CHR ''4'']),
                    W ''january'', W ''february'', W ''march'', W ''april'', W ''may'', W ''june'',
                    W ''july'', W ''august'', W ''september'', W ''october'', W ''november'',
                    W ''december''])],
     Alts [W ''budget allocated'', W ''approved budget'', W ''ready to purchase'',
           W ''ready to buy''],
     Alts [W ''rfp'', W ''request for proposal'', Ws ''quote'', Ws ''proposal'', Ws ''vendor''],
     Seqs [Alts [W ''project starting'', W ''implementation'', W ''rollout'', W ''deployment''], blank,
           Alts [W ''soon'', W ''scheduled'', W ''planned'']]]"

definition company_scale_patterns :: "regex list" where
  "company_scale_patterns =
    [Seqs [digits, Alts [Chr CHR ''+'', W ''plus''], blank,
           Alts [Ws ''employee'', Ws ''team member'', W ''staff'']],
     Alts [W ''startup'', W ''scale-up'', W ''growing company'', W ''established company''],
     Alts [Seq (W ''series '') (Any [CChar CHR ''a'', CChar CHR ''b'', CChar CHR ''c'']),
           W ''funding'', W ''investment'',
           Seqs [W ''revenue of '', Opt (Chr CHR ''$''), digits]],
     Alts [Ws ''multiple office'', Ws ''location'', Ws ''branche'', Ws ''site''],
     Alts [W ''international'', W ''global'', W ''worldwide'', Ws ''multiple countrie'']]"

text \<open>
  The patterns local to \<^verbatim>\<open>_extract_budget_indicators\<close>. Each has one capturing group, the
  amount \<^verbatim>\<open>(\d+(?:,\d+)*(?:\.\d+)?)\<close>, followed by \<^verbatim>\<open>\s*(?:million|thousand|k|m)?\<close>.
\<close>

definition amount :: regex where
  "amount = Grp (Seqs [digits, Star (Seq (Chr CHR '','') digits),
                       Opt (Seq (Chr CHR ''.'') digits)])"

definition unit_suffix :: regex where
  "unit_suffix = Seq (Star (Any [CSpace]))
                     (Opt (Alts [W ''million'', W ''thousand'', W ''k'', W ''m'']))"

definition budget_patterns :: "regex list" where
  "budget_patterns =
    [Seqs [W ''budget of '', Opt (Chr CHR ''$''), amount, unit_suffix],
     Seqs [W ''revenue of '', Opt (Chr CHR ''$''), amount, unit_suffix],
     Seqs [W ''funding of '', Opt (Chr CHR ''$''), amount, unit_suffix],
     Seqs [W ''raised '', Opt (Chr CHR ''$''), amount, unit_suffix],
     Seqs [Alts [W ''investment'', W ''capital'', W ''funding'', W ''raised'', W ''budget'',
                 W ''revenue''],
           Plus (Any [CSpace]), Opt (Seq (W ''of'') (Plus (Any [CSpace]))),
           Opt (Chr CHR ''$''), amount, unit_suffix]]"

text \<open>The patterns local to \<^verbatim>\<open>_extract_additional_context\<close>; the group is \<^verbatim>\<open>([^.]{10,80})\<close>.\<close>

definition phrase_tail :: regex where
  "phrase_tail = Grp (Rep 10 70 (Non [CChar CHR ''.'']))"

definition phrase_patterns :: "regex list" where
  "phrase_patterns =
    [Seqs [W ''we '', Alts [W ''help'', W ''enable'', W ''empower'', W ''support''], blank,
           Alts [W ''companies'', W ''businesses'', W ''organizations'', W ''clients''], blank,
           Opt (W ''to ''), phrase_tail],
     Seqs [W ''our mission is '', Opt (W ''to ''), phrase_tail],
     Seqs [W ''we specialize in '', phrase_tail],
     Seqs [Alts [W ''focused on'', W ''committed to'', W ''dedicated to''], blank, phrase_tail]]"

definition industry_keywords :: "(string \<times> string list) list" where
  "industry_keywords =
    [(''fintech'', [''financial'', ''banking'', ''payments'', ''fintech'', ''trading'']),
     (''healthcare'', [''healthcare'', ''medical'', ''hospital'', ''patient'', ''clinical'']),
     (''ecommerce'', [''ecommerce'', ''retail'', ''shopping'', ''marketplace'', ''online store'']),
     (''saas'', [''saas'', ''software as a service'', ''subscription'', ''cloud platform'']),
     (''startup'', [''startup'', ''early-stage'', ''seed'', ''series a'', ''founders''])]"

section \<open>Content cleaning\<close>

text \<open>
  \<^verbatim>\<open>_clean_text_enhanced\<close>: three substitutions, the filter on short words and the loop
  that drops a word equal (ignoring case) to the word kept before it.
\<close>

definition important_short_words :: "string list" where
  "important_short_words =
     [''we'', ''us'', ''or'', ''to'', ''is'', ''it'', ''ai'', ''ml'', ''io'', ''ui'', ''ux'',
      ''qa'', ''qa'', ''bi'']"

definition web_artifacts :: regex where
  "web_artifacts = Alts [W ''cookie'', W ''privacy policy'', W ''terms of service'',
                         W ''subscribe'', W ''newsletter'']"

definition special_characters :: regex where
  "special_characters =
     Non [CWord, CSpace, CChar CHR ''.'', CChar CHR '','', CChar CHR ''!'', CChar CHR ''?'',
          CChar CHR '':'', CChar CHR '';'', CChar CHR ''-'', CChar CHR ''('', CChar CHR '')'',
          CChar CHR ''$'', CChar CHR ''%'', CChar CHR ''+'', CChar CHR ''#'']"

fun remove_sequence_duplicates :: "string list \<Rightarrow> string \<Rightarrow> string list \<Rightarrow> string list" where
  "remove_sequence_duplicates cleaned_words prev_word [] = cleaned_words"
| "remove_sequence_duplicates cleaned_words prev_word (word # words) =
     (if lower word \<noteq> lower prev_word
      then remove_sequence_duplicates (cleaned_words @ [word]) word words
      else remove_sequence_duplicates cleaned_words prev_word words)"

definition clean_text_enhanced :: "string \<Rightarrow> string" where
  "clean_text_enhanced text =
    (let text = re_sub False (Plus (Any [CSpace])) '' '' text;
         text = re_sub True web_artifacts [] text;
         text = re_sub False special_characters '' '' text;
         words = split text;
         words = filter (\<lambda>word. length word > 2 \<or> lower word \<in> set important_short_words) words;
         cleaned_words = remove_sequence_duplicates [] [] words
     in strip (join '' '' cleaned_words))"

section \<open>Signal extraction\<close>

text \<open>
  \<^verbatim>\<open>_extract_pattern_matches\<close>. The inner loop over the matches of one pattern stops
  (\<^verbatim>\<open>break\<close>) when an append brings the list to five entries; the outer loop goes on
  with the next pattern, and the result is cut to its first five entries. No pattern of
  the tables is malformed, so \<^verbatim>\<open>re.error\<close> is never raised.
\<close>

definition clean_match :: "string \<Rightarrow> string" where
  "clean_match m = rstrip_chars ''.,!?:;'' (strip m)"

fun add_matches :: "string list \<Rightarrow> string list \<Rightarrow> string list" where
  "add_matches matches [] = matches"
| "add_matches matches (m # found_matches) =
     (if length (clean_match m) > 5 \<and> clean_match m \<notin> set matches
      then (if length (matches @ [clean_match m]) \<ge> 5 then matches @ [clean_match m]
            else add_matches (matches @ [clean_match m]) found_matches)
      else add_matches matches found_matches)"

definition extract_pattern_matches :: "string \<Rightarrow> regex list \<Rightarrow> string list" where
  "extract_pattern_matches content patterns =
     take 5 (foldl (\<lambda>matches pattern. add_matches matches (findall True pattern content))
                   [] patterns)"

text \<open>
  \<^verbatim>\<open>_extract_budget_indicators\<close>. The \<^verbatim>\<open>break\<close> at three entries leaves the loop over the
  matches of the current pattern only, and the list is returned as it is.
\<close>

fun add_indicators :: "string list \<Rightarrow> string list \<Rightarrow> string list" where
  "add_indicators indicators [] = indicators"
| "add_indicators indicators (m # matches) =
     (if length (indicators @ [''Financial indicator: $'' @ m]) \<ge> 3
      then indicators @ [''Financial indicator: $'' @ m]
      else add_indicators (indicators @ [''Financial indicator: $'' @ m]) matches)"

definition extract_budget_indicators :: "string \<Rightarrow> string list" where
  "extract_budget_indicators content =
     foldl (\<lambda>indicators pattern. add_indicators indicators (findall True pattern content))
           [] budget_patterns"

text \<open>\<^verbatim>\<open>_extract_additional_context\<close>: business phrases and industry tags.\<close>

fun add_phrases :: "string list \<Rightarrow> string list \<Rightarrow> string list" where
  "add_phrases business_phrases [] = business_phrases"
| "add_phrases business_phrases (m # matches) =
     (let business_phrases =
            (if length (clean_match m) > 10 then business_phrases @ [clean_match m]
             else business_phrases)
      in if length business_phrases \<ge> 2 then business_phrases
         else add_phrases business_phrases matches)"

definition extract_additional_context ::
    "hardware_intelligence \<Rightarrow> string \<Rightarrow> hardware_intelligence" where
  "extract_additional_context intelligence content =
     intelligence
       \<lparr> business_context :=
           Some (foldl (\<lambda>phrases pattern. add_phrases phrases (findall True pattern content))
                       [] phrase_patterns),
         industry_context :=
           Some (map fst (filter (\<lambda>(industry, keywords). list_ex (contains content) keywords)
                                 industry_keywords)) \<rparr>"

text \<open>
  \<^verbatim>\<open>_extract_hardware_intelligence\<close> fills the profile from the lower-cased content; the
  Python mutates the dict, the model returns the new record.
\<close>

definition extract_hardware_intelligence ::
    "hardware_intelligence \<Rightarrow> string \<Rightarrow> hardware_intelligence" where
  "extract_hardware_intelligence intelligence content =
    (let content_lower = lower content;
         intelligence = intelligence
           \<lparr> infrastructure_needs :=
               extract_pattern_matches content_lower infrastructure_patterns,
             growth_indicators := extract_pattern_matches content_lower growth_patterns,
             technical_pain_points := extract_pattern_matches content_lower pain_point_patterns,
             decision_makers := extract_pattern_matches content_lower decision_maker_patterns,
             tech_stack := extract_pattern_matches content_lower tech_infrastructure_patterns,
             hardware_opportunities :=
               extract_pattern_matches content_lower hardware_needs_patterns,
             urgency_signals := extract_pattern_matches content_lower urgency_patterns,
             company_scale := extract_pattern_matches content_lower company_scale_patterns,
             budget_indicators := extract_budget_indicators content_lower \<rparr>
     in extract_additional_context intelligence content_lower)"

section \<open>Scorer\<close>

text \<open>
  \<^verbatim>\<open>_calculate_hardware_readiness_score\<close>: the score starts at 0 and each of the five
  weighted categories adds its capped term only when its list is non-empty (Python's
  truthiness of a list); the sum is capped at 100. The function reads
  \<^verbatim>\<open>company['hardware_intelligence']\<close>; the model takes that profile.
\<close>

definition calculate_hardware_readiness_score :: "hardware_intelligence \<Rightarrow> int" where
  "calculate_hardware_readiness_score intelligence =
    (let score = 0;
         score = (if infrastructure_needs intelligence \<noteq> []
                  then score + min 30 (int (length (infrastructure_needs intelligence)) * 10)
                  else score);
         score = (if growth_indicators intelligence \<noteq> []
                  then score + min 25 (int (length (growth_indicators intelligence)) * 8)
                  else score);
         score = (if technical_pain_points intelligence \<noteq> []
                  then score + min 20 (int (length (technical_pain_points intelligence)) * 7)
                  else score);
         score = (if urgency_signals intelligence \<noteq> []
                  then score + min 15 (int (length (urgency_signals intelligence)) * 15)
                  else score);
         score = (if budget_indicators intelligence \<noteq> []
                  then score + min 10 (int (length (budget_indicators intelligence)) * 10)
                  else score)
     in min 100 score)"

text \<open>The formula of the specification, as a function of the five lengths.\<close>

definition score_formula :: "nat \<Rightarrow> nat \<Rightarrow> nat \<Rightarrow> nat \<Rightarrow> nat \<Rightarrow> int" where
  "score_formula i g t u b =
     min 100 (min 30 (10 * int i) + min 25 (8 * int g) + min 20 (7 * int t)
              + min 15 (15 * int u) + min 10 (10 * int b))"

section \<open>The network and the parsed page\<close>

text \<open>
  What the scraper takes from outside. A parsed page (\<^verbatim>\<open>BeautifulSoup\<close>, after the
  unwanted elements are decomposed) is given by the answers to the queries the scraper
  makes: \<^verbatim>\<open>soup.select(selector)\<close> as the \<^verbatim>\<open>get_text()\<close> of the selected elements, the
  texts of the \<^verbatim>\<open>h1\<close>/\<^verbatim>\<open>h2\<close>/\<^verbatim>\<open>h3\<close> elements, the text of \<^verbatim>\<open>body\<close> when there is one,
  the text of the whole document, and the \<^verbatim>\<open>href\<close> and text of every anchor that has
  an \<^verbatim>\<open>href\<close>.
\<close>

record soup =
  select :: "string \<Rightarrow> string list"
  headings :: "string list"
  body :: "string option"
  get_text :: string
  anchors :: "(string \<times> string) list"

text \<open>
  A response carries its \<^verbatim>\<open>content-type\<close> header, if any, and the outcome of parsing its
  content (\<open>Inl\<close> the message when both parsers raise).
\<close>

record response =
  content_type :: "string option"
  parsed :: "string + soup"

text \<open>
  The exceptions of \<^verbatim>\<open>session.get\<close> followed by \<^verbatim>\<open>raise_for_status\<close>, each with its
  \<^verbatim>\<open>str(e)\<close>. In the \<^verbatim>\<open>requests\<close> library \<^verbatim>\<open>SSLError\<close>, \<^verbatim>\<open>Timeout\<close>, \<^verbatim>\<open>ConnectionError\<close>
  and \<^verbatim>\<open>HTTPError\<close> are subclasses of \<^verbatim>\<open>RequestException\<close>; \<open>OtherException\<close> stands for
  an exception outside that hierarchy.
\<close>

datatype exn = SSLError string | Timeout string | ConnectionError string | HTTPError string
  | RequestException string | OtherException string

fun is_request_exception :: "exn \<Rightarrow> bool" where
  "is_request_exception (OtherException m) = False"
| "is_request_exception e = True"

datatype get_result = Raised exn | Returned response

text \<open>
  The environment of one run: \<^verbatim>\<open>urlparse(url).scheme\<close> and \<^verbatim>\<open>urljoin\<close> (\<open>Inl\<close> the message
  when they raise), the outcome of the \<open>n\<close>-th request of the run when it asks for a given
  URL, and the content budget \<^verbatim>\<open>max_content_length\<close>. Sleeps and timeouts take time only.
\<close>

record env =
  urlparse_scheme :: "string \<Rightarrow> string + string"
  urljoin :: "string \<Rightarrow> string \<Rightarrow> string + string"
  http_get :: "nat \<Rightarrow> string \<Rightarrow> get_result"
  max_content_length :: int

section \<open>Content extractor\<close>

definition main_selectors :: "string list" where
  "main_selectors =
     [''main'', ''[role=\"main\"]'', ''.main-content'', ''#main-content'', ''.content'',
      ''#content'', ''article'', ''.post'', ''.entry-content'', ''.page-content'']"

definition business_selectors :: "string list" where
  "business_selectors =
     [''.hero'', ''.banner'', ''.intro'', ''.about'', ''.services'', ''.solutions'',
      ''.company'', ''.team'', ''.technology'', ''.platform'', ''.products'']"

text \<open>
  \<^verbatim>\<open>_extract_main_content_enhanced\<close>: the first main container that selects anything,
  two elements of every business section, ten headings, and the body (or the whole
  document) when all of that gave no part at all.
\<close>

fun first_main_content :: "soup \<Rightarrow> string list \<Rightarrow> string list" where
  "first_main_content sp [] = []"
| "first_main_content sp (selector # selectors) =
     (if select sp selector \<noteq> [] then [join '' '' (select sp selector)]
      else first_main_content sp selectors)"

definition extract_main_content_enhanced :: "soup \<Rightarrow> string" where
  "extract_main_content_enhanced sp =
    (let content_parts = first_main_content sp main_selectors;
         content_parts = content_parts
            @ concat (map (\<lambda>selector. take 2 (select sp selector)) business_selectors);
         content_parts = content_parts @ take 10 (headings sp);
         content_parts =
           (if content_parts = []
            then (case body sp of Some t \<Rightarrow> [t] | None \<Rightarrow> [get_text sp])
            else content_parts)
     in join '' '' content_parts)"

section \<open>Fetcher\<close>

record page_data =
  success :: bool
  content :: string
  soup :: "soup option"
  error :: "string option"

definition failed_page :: "string \<Rightarrow> page_data" where
  "failed_page msg = \<lparr> success = False, content = [], soup = None, error = Some msg \<rparr>"

text \<open>
  The inner \<^verbatim>\<open>try\<close> of \<^verbatim>\<open>_scrape_single_page\<close>: request number \<open>n\<close>, and request number
  \<open>n + 1\<close> when the first raised a \<^verbatim>\<open>RequestException\<close>. The result comes with the number
  of the next request.
\<close>

definition get_with_retry :: "env \<Rightarrow> nat \<Rightarrow> string \<Rightarrow> get_result \<times> nat" where
  "get_with_retry env n url =
     (case http_get env n url of
        Returned r \<Rightarrow> (Returned r, Suc n)
      | Raised e \<Rightarrow>
          if is_request_exception e then (http_get env (Suc n) url, Suc (Suc n))
          else (Raised e, Suc n))"

text \<open>The four \<^verbatim>\<open>except\<close> clauses of the outer \<^verbatim>\<open>try\<close>, in their order.\<close>

fun handle_exn :: "exn \<Rightarrow> page_data" where
  "handle_exn (SSLError m) = failed_page (''SSL Error: '' @ m)"
| "handle_exn (Timeout m) = failed_page ''Request timeout''"
| "handle_exn (ConnectionError m) = failed_page (''Request failed: '' @ m)"
| "handle_exn (HTTPError m) = failed_page (''Request failed: '' @ m)"
| "handle_exn (RequestException m) = failed_page (''Request failed: '' @ m)"
| "handle_exn (OtherException m) = failed_page (''Parsing failed: '' @ m)"

definition force_https :: "string \<Rightarrow> string \<Rightarrow> string" where
  "force_https scheme url =
     (if scheme = [] then ''https://'' @ url
      else if scheme = ''http'' then replace ''http://'' ''https://'' url
      else url)"

text \<open>
  What \<^verbatim>\<open>_scrape_single_page\<close> makes of a response that it has obtained: the check of
  the content type, the parse, and the extracted and cleaned content.
\<close>

definition page_of_response :: "response \<Rightarrow> page_data" where
  "page_of_response r =
     (if \<not> contains (lower (case content_type r of None \<Rightarrow> [] | Some v \<Rightarrow> v)) ''text/html''
      then failed_page ''Not HTML content''
      else (case parsed r of
              Inl m \<Rightarrow> failed_page (''Parsing failed: '' @ m)
            | Inr sp \<Rightarrow>
                \<lparr> success = True,
                  content = clean_text_enhanced (extract_main_content_enhanced sp),
                  soup = Some sp, error = None \<rparr>))"

definition scrape_single_page :: "env \<Rightarrow> nat \<Rightarrow> string \<Rightarrow> page_data \<times> nat" where
  "scrape_single_page env n url =
     (case urlparse_scheme env url of
        Inl m \<Rightarrow> (failed_page (''Parsing failed: '' @ m), n)
      | Inr scheme \<Rightarrow>
          (case get_with_retry env n (force_https scheme url) of
             (Raised e, n') \<Rightarrow> (handle_exn e, n')
           | (Returned r, n') \<Rightarrow> (page_of_response r, n')))"

section \<open>Page selector\<close>

definition priority_pages :: "(string \<times> string list) list" where
  "priority_pages =
    [(''about'', [''about'', ''company'', ''team'', ''story'']),
     (''services'', [''services'', ''solutions'', ''products'', ''offerings'']),
     (''technology'', [''technology'', ''tech-stack'', ''infrastructure'', ''platform'']),
     (''careers'', [''careers'', ''jobs'', ''hiring'', ''join-us'', ''work-with-us'']),
     (''case-studies'', [''case-studies'', ''portfolio'', ''work'', ''projects'']),
     (''contact'', [''contact'', ''get-in-touch'', ''reach-us''])]"

text \<open>
  The state of the loop nest of \<^verbatim>\<open>_get_strategic_pages\<close>: the set
  \<^verbatim>\<open>found_pages\<close> (kept as the list of its elements in the order they were added; a URL
  is added only when it is not in the set), the list \<^verbatim>\<open>pages\<close>, and whether \<^verbatim>\<open>urljoin\<close>
  raised, which ends the iteration and leaves \<^verbatim>\<open>pages\<close> as it is.
\<close>

record selection =
  found_pages :: "string list"
  pages :: "string list"
  raised :: bool

fun keyword_loop ::
    "env \<Rightarrow> string \<Rightarrow> string \<times> string \<Rightarrow> string list \<Rightarrow> selection \<Rightarrow> selection" where
  "keyword_loop env base_url link [] st = st"
| "keyword_loop env base_url link (keyword # keywords) st =
     (if (contains (lower (fst link)) keyword \<or> contains (strip (lower (snd link))) keyword)
          \<and> length (found_pages st) < 4
      then (case urljoin env base_url (fst link) of
              Inl m \<Rightarrow> st \<lparr> raised := True \<rparr>
            | Inr full_url \<Rightarrow>
                if full_url \<notin> set (found_pages st) \<and> full_url \<noteq> base_url
                then st \<lparr> found_pages := found_pages st @ [full_url],
                          pages := pages st @ [full_url] \<rparr>
                else keyword_loop env base_url link keywords st)
      else keyword_loop env base_url link keywords st)"

fun category_loop ::
    "env \<Rightarrow> string \<Rightarrow> string \<times> string \<Rightarrow> (string \<times> string list) list \<Rightarrow> selection
      \<Rightarrow> selection" where
  "category_loop env base_url link [] st = st"
| "category_loop env base_url link ((category, keywords) # categories) st =
     (let st = keyword_loop env base_url link keywords st
      in if raised st \<or> length (found_pages st) \<ge> 4 then st
         else category_loop env base_url link categories st)"

fun link_loop :: "env \<Rightarrow> string \<Rightarrow> (string \<times> string) list \<Rightarrow> selection \<Rightarrow> selection" where
  "link_loop env base_url [] st = st"
| "link_loop env base_url (link # links) st =
     (let st = category_loop env base_url link priority_pages st
      in if raised st \<or> length (found_pages st) \<ge> 4 then st
         else link_loop env base_url links st)"

definition get_strategic_pages :: "env \<Rightarrow> nat \<Rightarrow> string \<Rightarrow> string list \<times> nat" where
  "get_strategic_pages env n base_url =
     (case scrape_single_page env n base_url of
        (homepage_data, n') \<Rightarrow>
          if \<not> success homepage_data then ([base_url], n')
          else (case soup homepage_data of
                  None \<Rightarrow> (take 5 [base_url], n')
                | Some sp \<Rightarrow>
                    (take 5 (pages (link_loop env base_url (anchors sp)
                               \<lparr> found_pages = [], pages = [base_url], raised = False \<rparr>)),
                     n')))"

section \<open>Orchestrator\<close>

text \<open>
  A company is a dict from field names to values; the values met here are strings,
  numbers, \<^verbatim>\<open>None\<close> and, under \<^verbatim>\<open>hardware_intelligence\<close>, the profile.
\<close>

datatype pyval = PStr string | PInt int | PNone | PIntel hardware_intelligence

type_synonym company = "string \<rightharpoonup> pyval"

datatype py_error = KeyError string | ValueError string

definition initial_intelligence :: hardware_intelligence where
  "initial_intelligence =
     \<lparr> infrastructure_needs = [], growth_indicators = [], technical_pain_points = [],
       decision_makers = [], tech_stack = [], hardware_opportunities = [],
       urgency_signals = [], company_scale = [], budget_indicators = [],
       scraping_success = False, scraping_error = None, content_preview = [],
       hardware_readiness_score = 0, business_context = None, industry_context = None \<rparr>"

text \<open>The loop over \<^verbatim>\<open>pages_to_scrape\<close>, with its early \<^verbatim>\<open>break\<close> on the content budget.\<close>

fun scrape_pages :: "env \<Rightarrow> nat \<Rightarrow> string list \<Rightarrow> string \<Rightarrow> string \<times> nat" where
  "scrape_pages env n [] all_content = (all_content, n)"
| "scrape_pages env n (page_url # page_urls) all_content =
     (case scrape_single_page env n page_url of
        (page_data, n') \<Rightarrow>
          if success page_data
          then (let all_content =
                      all_content @ [CHR 0x0A] @ ''--- '' @ page_url @ '' ---'' @ [CHR 0x0A]
                        @ content page_data
                in if int (length all_content) > max_content_length env then (all_content, n')
                   else scrape_pages env n' page_urls all_content)
          else scrape_pages env n' page_urls all_content)"

text \<open>
  The body of the \<^verbatim>\<open>try\<close> of \<^verbatim>\<open>scrape_company_website\<close>, from the collected content on.
  No statement of the body raises, so the \<^verbatim>\<open>except\<close> clause has no case here.
\<close>

definition analyse_content :: "string \<Rightarrow> hardware_intelligence" where
  "analyse_content all_content =
     (if all_content \<noteq> []
      then (let intelligence = initial_intelligence
                  \<lparr> scraping_success := True, content_preview := take 500 all_content \<rparr>;
                intelligence = extract_hardware_intelligence intelligence all_content
            in intelligence
                 \<lparr> hardware_readiness_score := calculate_hardware_readiness_score intelligence \<rparr>)
      else initial_intelligence
             \<lparr> scraping_error := Some ''No content extracted from any pages'' \<rparr>)"

text \<open>
  \<^verbatim>\<open>scrape_company_website\<close>. The first statement reads \<^verbatim>\<open>company['name']\<close> and
  \<^verbatim>\<open>company['website']\<close> outside the \<^verbatim>\<open>try\<close>, so a missing key raises \<^verbatim>\<open>KeyError\<close>. A
  website that is not a string makes \<^verbatim>\<open>_scrape_single_page\<close> fail before any request
  (its \<^verbatim>\<open>except Exception\<close> clause), for the home page and again in the loop.
\<close>

definition scrape_company_website :: "env \<Rightarrow> nat \<Rightarrow> company \<Rightarrow> py_error + company \<times> nat" where
  "scrape_company_website env n company =
     (case company ''name'' of
        None \<Rightarrow> Inl (KeyError ''name'')
      | Some name \<Rightarrow>
          (case company ''website'' of
             None \<Rightarrow> Inl (KeyError ''website'')
           | Some (PStr website) \<Rightarrow>
               (case get_strategic_pages env n website of
                  (pages_to_scrape, n') \<Rightarrow>
                    (case scrape_pages env n' pages_to_scrape [] of
                       (all_content, n'') \<Rightarrow>
                         Inr (company(''hardware_intelligence'' \<mapsto>
                                PIntel (analyse_content all_content)), n'')))
           | Some other \<Rightarrow>
               Inr (company(''hardware_intelligence'' \<mapsto> PIntel (analyse_content [])), n)))"

text \<open>
  \<^verbatim>\<open>scrape_multiple_companies\<close>. \<^verbatim>\<open>ThreadPoolExecutor\<close> raises \<^verbatim>\<open>ValueError\<close> for a pool
  size below 1. The futures are then read in the order of submission, which is the order
  of the input. What the pool does is given by two functions of the position \<open>i\<close> of a
  task: whether \<^verbatim>\<open>future.result(timeout=45)\<close> times out, and the environment in which the
  worker ran \<^verbatim>\<open>scrape_company_website\<close>. A task that timed out or raised gets the error
  profile; that branch reads \<^verbatim>\<open>company['name']\<close>, which raises again when it is missing.
\<close>

definition error_intelligence :: "string \<Rightarrow> hardware_intelligence" where
  "error_intelligence msg =
     initial_intelligence \<lparr> scraping_success := False, scraping_error := Some msg \<rparr>"

definition future_result ::
    "(nat \<Rightarrow> bool) \<Rightarrow> (nat \<Rightarrow> env) \<Rightarrow> nat \<Rightarrow> company \<Rightarrow> string + company" where
  "future_result timed_out worker_env i company =
     (if timed_out i then Inl []
      else (case scrape_company_website (worker_env i) 0 company of
              Inl (KeyError k) \<Rightarrow> Inl ([CHR 0x27] @ k @ [CHR 0x27])
            | Inl (ValueError m) \<Rightarrow> Inl m
            | Inr (enhanced_company, n) \<Rightarrow> Inr enhanced_company))"

fun collect_results ::
    "(nat \<Rightarrow> bool) \<Rightarrow> (nat \<Rightarrow> env) \<Rightarrow> nat \<Rightarrow> company list \<Rightarrow> company list
      \<Rightarrow> py_error + company list" where
  "collect_results timed_out worker_env i [] enhanced_companies = Inr enhanced_companies"
| "collect_results timed_out worker_env i (company # companies) enhanced_companies =
     (case future_result timed_out worker_env i company of
        Inr enhanced_company \<Rightarrow>
          collect_results timed_out worker_env (Suc i) companies
            (enhanced_companies @ [enhanced_company])
      | Inl msg \<Rightarrow>
          (case company ''name'' of
             None \<Rightarrow> Inl (KeyError ''name'')
           | Some name \<Rightarrow>
               collect_results timed_out worker_env (Suc i) companies
                 (enhanced_companies
                    @ [company(''hardware_intelligence'' \<mapsto> PIntel (error_intelligence msg))])))"

definition scrape_multiple_companies ::
    "(nat \<Rightarrow> bool) \<Rightarrow> (nat \<Rightarrow> env) \<Rightarrow> company list \<Rightarrow> int \<Rightarrow> py_error + company list" where
  "scrape_multiple_companies timed_out worker_env companies max_workers =
     (if max_workers \<le> 0 then Inl (ValueError ''max_workers must be greater than 0'')
      else collect_results timed_out worker_env 0 companies [])"

section \<open>Predicates of the specification\<close>

text \<open>
  Two consecutive tokens that are equal when compared without regard to case, and two
  consecutive whitespace characters.
\<close>

fun adjacent_dup :: "string list \<Rightarrow> bool" where
  "adjacent_dup (a # b # ws) = (lower a = lower b \<or> adjacent_dup (b # ws))"
| "adjacent_dup ws = False"

fun ws_run :: "string \<Rightarrow> bool" where
  "ws_run (c # d # s) = (is_space c \<and> is_space d \<or> ws_run (d # s))"
| "ws_run s = False"

text \<open>
  The eight categories filled by \<^verbatim>\<open>_extract_pattern_matches\<close>, and what the
  specification asks of a category list: at most five entries, no entry twice, every
  entry longer than five characters.
\<close>

definition pattern_categories :: "hardware_intelligence \<Rightarrow> string list list" where
  "pattern_categories p =
     [infrastructure_needs p, growth_indicators p, technical_pain_points p, decision_makers p,
      tech_stack p, hardware_opportunities p, urgency_signals p, company_scale p]"

definition bounded_category :: "string list \<Rightarrow> bool" where
  "bounded_category xs = (length xs \<le> 5 \<and> distinct xs \<and> list_all (\<lambda>e. 5 < length e) xs)"

text \<open>
  What the specification asks of the profile of a company that could not be evaluated,
  and of a result record with respect to the input record it was made from.
\<close>

definition failed_profile :: "hardware_intelligence \<Rightarrow> bool" where
  "failed_profile p =
     (\<not> scraping_success p \<and> hardware_readiness_score p = 0
      \<and> infrastructure_needs p = [] \<and> growth_indicators p = []
      \<and> technical_pain_points p = [] \<and> decision_makers p = [] \<and> tech_stack p = []
      \<and> hardware_opportunities p = [] \<and> urgency_signals p = [] \<and> company_scale p = []
      \<and> budget_indicators p = []
      \<and> (case scraping_error p of None \<Rightarrow> False | Some msg \<Rightarrow> msg \<noteq> []))"

definition enhanced_from :: "company \<Rightarrow> company \<Rightarrow> bool" where
  "enhanced_from company result =
     (\<exists>p. result = company(''hardware_intelligence'' \<mapsto> PIntel p))"

section \<open>Shape of the matches of a pattern\<close>

text \<open>
  Three properties of a pattern that can be read off its syntax: the least number of
  characters a match reads, and whether every non-empty match begins, or ends, with a
  word character.
\<close>

fun minlen :: "regex \<Rightarrow> nat" where
  "minlen Eps = 0"
| "minlen (Chr d) = 1"
| "minlen (Any cs) = 1"
| "minlen (Non cs) = 1"
| "minlen (Seq a b) = minlen a + minlen b"
| "minlen (Alt a b) = min (minlen a) (minlen b)"
| "minlen (Star a) = 0"
| "minlen (Grp a) = minlen a"

fun word_class :: "cset \<Rightarrow> bool" where
  "word_class CWord = True"
| "word_class CDigit = True"
| "word_class k = False"

fun first_word :: "regex \<Rightarrow> bool" where
  "first_word Eps = True"
| "first_word (Chr d) = is_word d"
| "first_word (Any cs) = list_all word_class cs"
| "first_word (Non cs) = False"
| "first_word (Seq a b) = (first_word a \<and> (minlen a = 0 \<longrightarrow> first_word b))"
| "first_word (Alt a b) = (first_word a \<and> first_word b)"
| "first_word (Star a) = first_word a"
| "first_word (Grp a) = first_word a"

fun last_word :: "regex \<Rightarrow> bool" where
  "last_word Eps = True"
| "last_word (Chr d) = is_word d"
| "last_word (Any cs) = list_all word_class cs"
| "last_word (Non cs) = False"
| "last_word (Seq a b) = (last_word b \<and> (minlen b = 0 \<longrightarrow> last_word a))"
| "last_word (Alt a b) = (last_word a \<and> last_word b)"
| "last_word (Star a) = last_word a"
| "last_word (Grp a) = last_word a"

text \<open>A string that one match of a pattern with these properties may have read.\<close>

definition shaped :: "regex \<Rightarrow> string \<Rightarrow> bool" where
  "shaped r w =
     (minlen r \<le> length w
      \<and> (first_word r \<and> w \<noteq> [] \<longrightarrow> is_word (hd w))
      \<and> (last_word r \<and> w \<noteq> [] \<longrightarrow> is_word (last w)))"

section \<open>Example environments\<close>

text \<open>
  Concrete inputs for the statements below: a site with a home page and six links, the
  same site when every request times out, when every request fails in the TLS
  handshake, and when only the first request does; and the two sample companies of
  \<^verbatim>\<open>test_hardware_scraper\<close>.
\<close>

definition example_soup :: soup where
  "example_soup =
     \<lparr> select = (\<lambda>selector. if selector = ''main''
                   then [''We are expanding our engineering team. Urgent need for new servers.'']
                   else []),
       headings = [''Careers''],
       body = Some ''We are expanding our engineering team. Urgent need for new servers.'',
       get_text = ''We are expanding our engineering team. Urgent need for new servers.'',
       anchors = [(''/about'', ''About us''), (''/about'', ''Our story''),
                  (''/services'', ''What we do''), (''/blog'', ''Blog''),
                  (''/x/tech-stack'', ''Stack''), (''/jobs'', ''Open roles''),
                  (''/contact'', ''Contact'')] \<rparr>"

definition example_response :: response where
  "example_response =
     \<lparr> content_type = Some ''text/html; charset=UTF-8'', parsed = Inr example_soup \<rparr>"

definition example_scheme :: "string \<Rightarrow> string + string" where
  "example_scheme url =
     (if take 8 url = ''https://'' then Inr ''https''
      else if take 7 url = ''http://'' then Inr ''http'' else Inr [])"

definition online_env :: env where
  "online_env =
     \<lparr> urlparse_scheme = example_scheme,
       urljoin = (\<lambda>base href. Inr (base @ href)),
       http_get = (\<lambda>n url. Returned example_response),
       max_content_length = 4000 \<rparr>"

definition offline_env :: env where
  "offline_env = online_env \<lparr> http_get := (\<lambda>n url. Raised (Timeout ''read timed out'')) \<rparr>"

definition ssl_env :: env where
  "ssl_env = online_env \<lparr> http_get := (\<lambda>n url. Raised (SSLError ''certificate verify failed'')) \<rparr>"

definition ssl_once_env :: env where
  "ssl_once_env =
     online_env \<lparr> http_get := (\<lambda>n url. if n = 0 then Raised (SSLError ''handshake failure'')
                                          else Returned example_response) \<rparr>"

definition techflow :: company where
  "techflow =
     [''name'' \<mapsto> PStr ''TechFlow Solutions'', ''website'' \<mapsto> PStr ''https://techflow.example.com'',
      ''industry'' \<mapsto> PStr ''Software Development'', ''employee_count'' \<mapsto> PInt 75,
      ''location'' \<mapsto> PStr ''San Francisco, CA'']"

definition datacore :: company where
  "datacore =
     [''name'' \<mapsto> PStr ''DataCore Analytics'', ''website'' \<mapsto> PStr ''https://example.com'',
      ''industry'' \<mapsto> PStr ''Data Analytics'', ''employee_count'' \<mapsto> PInt 120,
      ''location'' \<mapsto> PStr ''Austin, TX'']"

section \<open>Properties of the scorer\<close>

lemma score_eq_formula:
  "calculate_hardware_readiness_score r =
     score_formula (length (infrastructure_needs r)) (length (growth_indicators r))
       (length (technical_pain_points r)) (length (urgency_signals r))
       (length (budget_indicators r))"
  by (simp add: calculate_hardware_readiness_score_def score_formula_def Let_def mult.commute)

text \<open>
  C1. For every intelligence profile the hardware readiness score equals
  min(100, min(30, 10*len(infrastructure_needs)) + min(25, 8*len(growth_indicators))
  + min(20, 7*len(technical_pain_points)) + min(15, 15*len(urgency_signals))
  + min(10, 10*len(budget_indicators))). It is therefore an integer between 0 and 100,
  an empty category contributes 0, and two profiles whose five weighted lists have the
  same lengths get the same score, whatever their other entries are.
\<close>

theorem hardware_readiness_score_formula:
  "calculate_hardware_readiness_score p =
     score_formula (length (infrastructure_needs p)) (length (growth_indicators p))
       (length (technical_pain_points p)) (length (urgency_signals p))
       (length (budget_indicators p))
   \<and> 0 \<le> calculate_hardware_readiness_score p
   \<and> calculate_hardware_readiness_score p \<le> 100
   \<and> (length (infrastructure_needs q) = length (infrastructure_needs p)
        \<and> length (growth_indicators q) = length (growth_indicators p)
        \<and> length (technical_pain_points q) = length (technical_pain_points p)
        \<and> length (urgency_signals q) = length (urgency_signals p)
        \<and> length (budget_indicators q) = length (budget_indicators p)
      \<longrightarrow> calculate_hardware_readiness_score q = calculate_hardware_readiness_score p)"
proof -
  have range: "0 \<le> score_formula i g t u b \<and> score_formula i g t u b \<le> 100" for i g t u b
    by (simp add: score_formula_def)
  show ?thesis
    using range by (simp add: score_eq_formula)
qed

theorem hardware_readiness_score_formula_witness:
  "calculate_hardware_readiness_score
     (initial_intelligence \<lparr> growth_indicators := [''expanding our engineer''],
                             urgency_signals := [''urgent need''],
                             tech_stack := [''python''] \<rparr>) = 23
   \<and> calculate_hardware_readiness_score
     (initial_intelligence \<lparr> growth_indicators := [''hiring staff''],
                             urgency_signals := [''asap need''] \<rparr>) = 23"
  using hardware_readiness_score_formula
    [of "initial_intelligence \<lparr> growth_indicators := [''expanding our engineer''],
                                 urgency_signals := [''urgent need''],
                                 tech_stack := [''python''] \<rparr>"
        "initial_intelligence \<lparr> growth_indicators := [''hiring staff''],
                                 urgency_signals := [''asap need''] \<rparr>"]
  by (simp add: initial_intelligence_def score_formula_def)

section \<open>Properties of the content cleaning\<close>

lemma split_acc_words:
  "w \<in> set (split_acc cur s) \<Longrightarrow> \<forall>c\<in>set cur. \<not> is_space c
    \<Longrightarrow> w \<noteq> [] \<and> (\<forall>c\<in>set w. \<not> is_space c)"
proof (induction s arbitrary: cur)
  case Nil
  then show ?case by (cases "cur = []") auto
next
  case (Cons c cs)
  show ?case
  proof (cases "is_space c")
    case True
    then have "w = cur \<and> cur \<noteq> [] \<or> w \<in> set (split_acc [] cs)"
      using Cons.prems(1) by (cases "cur = []") auto
    then show ?thesis
      using Cons.prems(2) Cons.IH[of "[]"] by auto
  next
    case False
    then have "w \<in> set (split_acc (cur @ [c]) cs)"
      using Cons.prems(1) by simp
    moreover have "\<forall>d\<in>set (cur @ [c]). \<not> is_space d"
      using Cons.prems(2) False by simp
    ultimately show ?thesis by (rule Cons.IH)
  qed
qed

lemma split_words: "w \<in> set (split s) \<Longrightarrow> w \<noteq> [] \<and> (\<forall>c\<in>set w. \<not> is_space c)"
  unfolding split_def using split_acc_words[of w "[]" s] by simp

lemma split_acc_word:
  "\<forall>c\<in>set w. \<not> is_space c \<Longrightarrow> split_acc cur (w @ rest) = split_acc (cur @ w) rest"
  by (induction w arbitrary: cur) auto

lemma split_acc_join:
  "\<forall>w\<in>set ws. w \<noteq> [] \<and> (\<forall>c\<in>set w. \<not> is_space c)
    \<Longrightarrow> split_acc [] (join '' '' ws) = ws"
proof (induction "'' ''" ws rule: join.induct)
  case 1
  then show ?case by simp
next
  case (2 w)
  then show ?case using split_acc_word[of w "[]" "[]"] by simp
next
  case (3 w v vs)
  have sp: "is_space CHR '' ''" by (simp add: is_space_def)
  from 3 have "split_acc [] (w @ '' '' @ join '' '' (v # vs)) = split_acc w ('' '' @ join '' '' (v # vs))"
    using split_acc_word[of w "[]"] by simp
  also have "\<dots> = w # split_acc [] (join '' '' (v # vs))"
    using 3 sp by simp
  finally show ?case using 3 by simp
qed

lemma adjacent_dup_snoc:
  "adjacent_dup (xs @ [w]) = (adjacent_dup xs \<or> (xs \<noteq> [] \<and> lower (last xs) = lower w))"
  by (induction xs rule: adjacent_dup.induct) auto

lemma remove_sequence_duplicates_no_dup:
  "\<not> adjacent_dup cleaned \<Longrightarrow> cleaned = [] \<or> prev = last cleaned
    \<Longrightarrow> \<not> adjacent_dup (remove_sequence_duplicates cleaned prev words)"
proof (induction words arbitrary: cleaned prev)
  case Nil
  then show ?case by simp
next
  case (Cons word words)
  show ?case
  proof (cases "lower word = lower prev")
    case True
    then show ?thesis using Cons by simp
  next
    case False
    have "\<not> adjacent_dup (cleaned @ [word])"
      using Cons.prems False by (auto simp: adjacent_dup_snoc)
    then show ?thesis using False Cons.IH[of "cleaned @ [word]" word] by simp
  qed
qed

lemma remove_sequence_duplicates_subset:
  "set (remove_sequence_duplicates cleaned prev words) \<subseteq> set cleaned \<union> set words"
proof (induction words arbitrary: cleaned prev)
  case Nil
  then show ?case by simp
next
  case (Cons word words)
  show ?case
    using Cons[of "cleaned @ [word]" word] Cons[of cleaned prev] by (cases "lower word = lower prev") auto
qed

lemma ws_run_word:
  "\<forall>c\<in>set w. \<not> is_space c \<Longrightarrow> ws_run (w @ d # rest) = ws_run (d # rest)"
proof (induction w)
  case Nil
  then show ?case by simp
next
  case (Cons x w)
  then show ?case by (cases w) auto
qed

lemma ws_run_no_space: "\<forall>c\<in>set w. \<not> is_space c \<Longrightarrow> \<not> ws_run w"
  by (induction w rule: ws_run.induct) auto

lemma join_hd:
  "\<forall>w\<in>set ws. w \<noteq> [] \<Longrightarrow> ws \<noteq> [] \<Longrightarrow> join sep ws \<noteq> [] \<and> hd (join sep ws) = hd (hd ws)"
  by (induction sep ws rule: join.induct) auto

lemma join_last:
  "\<forall>w\<in>set ws. w \<noteq> [] \<Longrightarrow> ws \<noteq> [] \<Longrightarrow> last (join sep ws) = last (last ws)"
proof (induction sep ws rule: join.induct)
  case (3 sep w v vs)
  then have "join sep (v # vs) \<noteq> []" using join_hd[of "v # vs" sep] by simp
  then show ?case using 3 by simp
qed auto

lemma ws_run_join:
  "\<forall>w\<in>set ws. w \<noteq> [] \<and> (\<forall>c\<in>set w. \<not> is_space c) \<Longrightarrow> \<not> ws_run (join '' '' ws)"
proof (induction "'' ''" ws rule: join.induct)
  case 1
  then show ?case by simp
next
  case (2 w)
  then show ?case by (simp add: ws_run_no_space)
next
  case (3 w v vs)
  have ne: "join '' '' (v # vs) \<noteq> []" and h: "hd (join '' '' (v # vs)) = hd v"
    using 3 join_hd[of "v # vs" "'' ''"] by auto
  then obtain d t where dt: "join '' '' (v # vs) = d # t" by (cases "join '' '' (v # vs)") auto
  with h 3 have d: "\<not> is_space d" by (cases v) auto
  have "ws_run (w @ '' '' @ join '' '' (v # vs)) = ws_run (CHR '' '' # d # t)"
    using 3 dt ws_run_word[of w "CHR '' ''" "d # t"] by simp
  also have "\<dots> = ws_run (d # t)" using d by simp
  finally show ?case using 3 dt by simp
qed

lemma strip_id:
  "s \<noteq> [] \<Longrightarrow> \<not> is_space (hd s) \<Longrightarrow> \<not> is_space (last s) \<Longrightarrow> strip s = s"
proof -
  assume a: "s \<noteq> []" "\<not> is_space (hd s)" "\<not> is_space (last s)"
  then have 1: "dropWhile is_space s = s" by (cases s) auto
  from a have "rev s \<noteq> []" "\<not> is_space (hd (rev s))" by (auto simp: hd_rev)
  then have "dropWhile is_space (rev s) = rev s" by (cases "rev s") auto
  with 1 show ?thesis by (simp add: strip_def)
qed

lemma strip_join:
  assumes "\<forall>w\<in>set ws. w \<noteq> [] \<and> (\<forall>c\<in>set w. \<not> is_space c)"
  shows "strip (join '' '' ws) = join '' '' ws"
proof (cases ws)
  case Nil
  then show ?thesis by (simp add: strip_def)
next
  case (Cons v vs)
  then have ne: "ws \<noteq> []" by simp
  have nn: "\<forall>w\<in>set ws. w \<noteq> []" using assms by simp
  have "hd ws \<in> set ws" "last ws \<in> set ws" using ne by auto
  then have "\<not> is_space (hd (hd ws))" "\<not> is_space (last (last ws))"
    using assms by (metis hd_in_set, metis last_in_set)
  then show ?thesis
    using strip_id[of "join '' '' ws"] join_hd[OF nn ne, of "'' ''"] join_last[OF nn ne, of "'' ''"]
    by simp
qed

text \<open>
  C8. For every input string, the text returned by the content cleaning has no two
  consecutive tokens (maximal runs of non-whitespace characters) that are equal when
  compared case-insensitively, and has no two consecutive whitespace characters.
\<close>

theorem clean_text_enhanced_no_repeats:
  "\<not> adjacent_dup (split (clean_text_enhanced text)) \<and> \<not> ws_run (clean_text_enhanced text)"
proof -
  define t3 where "t3 = re_sub False special_characters '' ''
     (re_sub True web_artifacts [] (re_sub False (Plus (Any [CSpace])) '' '' text))"
  define words where
    "words = filter (\<lambda>word. length word > 2 \<or> lower word \<in> set important_short_words) (split t3)"
  define cleaned where "cleaned = remove_sequence_duplicates [] [] words"
  have out: "clean_text_enhanced text = strip (join '' '' cleaned)"
    by (simp add: clean_text_enhanced_def Let_def cleaned_def words_def t3_def)
  have "set cleaned \<subseteq> set (split t3)"
    using remove_sequence_duplicates_subset[of "[]" "[]" words]
    by (auto simp: cleaned_def words_def)
  then have good: "\<forall>w\<in>set cleaned. w \<noteq> [] \<and> (\<forall>c\<in>set w. \<not> is_space c)"
    using split_words by blast
  have nd: "\<not> adjacent_dup cleaned"
    unfolding cleaned_def by (rule remove_sequence_duplicates_no_dup) auto
  have s: "strip (join '' '' cleaned) = join '' '' cleaned"
    using good by (rule strip_join)
  have "split (join '' '' cleaned) = cleaned"
    unfolding split_def using good by (rule split_acc_join)
  with nd s out show ?thesis
    using ws_run_join[OF good] by simp
qed

section \<open>Properties of the matcher\<close>

lemma is_word_lower_char: "is_word (lower_char c) = is_word c"
  by (auto simp: is_word_def lower_char_def Let_def)

lemma is_word_upper_char: "is_word (upper_char c) = is_word c"
  by (auto simp: is_word_def upper_char_def Let_def)

lemma chr_eq_is_word: "chr_eq ic d c \<Longrightarrow> is_word d \<Longrightarrow> is_word c"
  by (metis chr_eq_def is_word_lower_char)

lemma in_cset_is_word: "in_cset k c \<Longrightarrow> word_class k \<Longrightarrow> is_word c"
  by (cases k) (auto simp: is_word_def is_digit_def Let_def)

lemma in_class_is_word:
  assumes "in_class ic cs c" "list_all word_class cs"
  shows "is_word c"
proof -
  from assms(1) obtain k x where k: "k \<in> set cs" "in_cset k x"
      and x: "x = c \<or> x = lower_char c \<or> x = upper_char c"
    by (auto simp: in_class_def list_ex_iff)
  from k assms(2) have "is_word x"
    by (auto simp: list_all_iff intro: in_cset_is_word)
  with x show ?thesis
    by (auto simp: is_word_lower_char is_word_upper_char)
qed

lemma is_word_not_space: "is_word c \<Longrightarrow> \<not> is_space c"
  by (auto simp: is_word_def is_space_def Let_def)

lemma is_word_not_punct: "is_word c \<Longrightarrow> c \<notin> set ''.,!?:;''"
  by (auto simp: is_word_def Let_def)

lemma shaped_Seq:
  assumes "shaped a u" "shaped b v"
  shows "shaped (Seq a b) (u @ v)"
proof -
  have "minlen (Seq a b) \<le> length (u @ v)"
    using assms by (simp add: shaped_def)
  moreover have "is_word (hd (u @ v))" if "first_word (Seq a b)" "u @ v \<noteq> []"
  proof (cases "u = []")
    case True
    then have "minlen a = 0" using assms(1) by (simp add: shaped_def)
    then show ?thesis using that True assms(2) by (simp add: shaped_def)
  next
    case False
    then show ?thesis using that assms(1) by (simp add: shaped_def)
  qed
  moreover have "is_word (last (u @ v))" if "last_word (Seq a b)" "u @ v \<noteq> []"
  proof (cases "v = []")
    case True
    then have "minlen b = 0" using assms(2) by (simp add: shaped_def)
    then show ?thesis using that True assms(1) by (simp add: shaped_def)
  next
    case False
    then show ?thesis using that assms(2) by (simp add: shaped_def)
  qed
  ultimately show ?thesis by (simp add: shaped_def)
qed

lemma shaped_Star:
  assumes "shaped a u" "shaped (Star a) v" "u \<noteq> []"
  shows "shaped (Star a) (u @ v)"
proof -
  have "is_word (hd (u @ v))" if "first_word a"
    using that assms(1,3) by (simp add: shaped_def)
  moreover have "is_word (last (u @ v))" if "last_word a"
    using that assms by (cases "v = []") (simp_all add: shaped_def)
  ultimately show ?thesis by (simp add: shaped_def)
qed

lemma ends_shaped:
  "st' \<in> set (ends ic r st) \<Longrightarrow> \<exists>w. fst st = w @ fst st' \<and> shaped r w"
proof (induction ic r st arbitrary: st' rule: ends.induct)
  case (1 ic st)
  then show ?case by (simp add: shaped_def)
next
  case (2 ic d s g)
  then obtain c where "s = c # fst st'" "chr_eq ic d c"
    by (auto split: list.splits if_splits)
  then have "s = [c] @ fst st' \<and> shaped (Chr d) [c]"
    using chr_eq_is_word by (auto simp: shaped_def)
  then show ?case by (metis fst_conv)
next
  case (3 ic cs s g)
  then obtain c where "s = c # fst st'" "in_class ic cs c"
    by (auto split: list.splits if_splits)
  then have "s = [c] @ fst st' \<and> shaped (Any cs) [c]"
    using in_class_is_word by (auto simp: shaped_def)
  then show ?case by (metis fst_conv)
next
  case (4 ic cs s g)
  then obtain c where "s = c # fst st'"
    by (auto split: list.splits if_splits)
  then have "s = [c] @ fst st' \<and> shaped (Non cs) [c]"
    by (auto simp: shaped_def)
  then show ?case by (metis fst_conv)
next
  case (5 ic a b st)
  from "5.prems" obtain mid where mid: "mid \<in> set (ends ic a st)" "st' \<in> set (ends ic b mid)"
    by auto
  from "5.IH"(1)[OF mid(1)] obtain u where u: "fst st = u @ fst mid" "shaped a u" by blast
  from "5.IH"(2)[OF mid] obtain v where v: "fst mid = v @ fst st'" "shaped b v" by blast
  have "fst st = (u @ v) @ fst st'" using u v by simp
  then show ?case using shaped_Seq[OF u(2) v(2)] by blast
next
  case (6 ic a b st)
  then consider "st' \<in> set (ends ic a st)" | "st' \<in> set (ends ic b st)" by auto
  then show ?case
  proof cases
    case 1
    from "6.IH"(1)[OF this] show ?thesis by (auto simp: shaped_def)
  next
    case 2
    from "6.IH"(2)[OF this] show ?thesis by (auto simp: shaped_def)
  qed
next
  case (7 ic a s g)
  from "7.prems" consider "st' = (s, g)"
    | mid where "mid \<in> set (ends ic a (s, g))" "length (fst mid) < length s"
        "st' \<in> set (ends ic (Star a) mid)"
    by (auto split: if_splits)
  then show ?case
  proof cases
    case 1
    then show ?thesis by (simp add: shaped_def)
  next
    case 2
    from "7.IH"(1)[OF 2(1)] obtain u where u: "s = u @ fst mid" "shaped a u" by auto
    from "7.IH"(2)[OF 2(1,2,3)] obtain v where v: "fst mid = v @ fst st'" "shaped (Star a) v"
      by blast
    from u(1) 2(2) have "u \<noteq> []" by auto
    then have "shaped (Star a) (u @ v)" using u(2) v(2) by (simp add: shaped_Star)
    moreover have "fst (s, g) = (u @ v) @ fst st'" using u v by simp
    ultimately show ?thesis by blast
  qed
next
  case (8 ic a s g)
  then obtain m where m: "m \<in> set (ends ic a (s, g))" "fst st' = fst m" by auto
  from "8.IH"[OF m(1)] m(2) show ?case by (auto simp: shaped_def)
qed

lemma findall_at_shaped:
  "m \<in> set (findall_at ic r s adv) \<Longrightarrow> \<not> has_group r \<Longrightarrow> shaped r m"
proof (induction ic r s adv rule: findall_at.induct)
  case (1 ic r s adv)
  let ?c = "filter (\<lambda>st. \<not> adv \<or> length (fst st) < length s) (ends ic r (s, None))"
  note grp = "1.prems"(2)
  show ?case
  proof (cases ?c)
    case Nil
    with "1.prems"(1) obtain c t where s: "s = c # t" and m: "m \<in> set (findall_at ic r t False)"
      by (subst (asm) findall_at.simps) (auto split: list.splits)
    from "1.IH"(1)[OF Nil s m grp] show ?thesis .
  next
    case (Cons st rest)
    then have "st \<in> set (ends ic r (s, None))"
      by (metis filter_is_subset list.set_intros(1) subsetD)
    from ends_shaped[OF this] obtain w where w: "s = w @ fst st" "shaped r w" by auto
    then have it: "item (has_group r) s st = w" using grp by (simp add: item_def)
    from "1.prems"(1) Cons it consider "m = w"
      | "length (fst st) < length s" "m \<in> set (findall_at ic r (fst st) False)"
      | "\<not> length (fst st) < length s" "\<not> adv" "m \<in> set (findall_at ic r s True)"
      by (subst (asm) findall_at.simps) (auto split: if_splits)
    then show ?thesis
    proof cases
      case 1
      then show ?thesis using w by simp
    next
      case 2
      then show ?thesis using "1.IH"(2)[OF Cons] grp by simp
    next
      case 3
      then show ?thesis using "1.IH"(3)[OF Cons] grp by simp
    qed
  qed
qed

lemma findall_at_nonempty:
  "ends ic r (s, None) \<noteq> [] \<Longrightarrow> findall_at ic r (a @ s) False \<noteq> []"
proof (induction a)
  case Nil
  then show ?case by (subst findall_at.simps) (auto split: list.splits)
next
  case (Cons x a)
  then show ?case by (subst findall_at.simps) (auto split: list.splits)
qed

lemma clean_match_id:
  assumes "w \<noteq> []" "is_word (hd w)" "is_word (last w)"
  shows "clean_match w = w"
proof -
  have "strip w = w"
    using assms by (simp add: strip_id is_word_not_space)
  moreover have "rev w \<noteq> []" "hd (rev w) \<notin> set ''.,!?:;''"
    using assms is_word_not_punct[of "last w"] by (simp_all add: hd_rev)
  then have "dropWhile (\<lambda>c. c \<in> set ''.,!?:;'') (rev w) = rev w"
    by (cases "rev w") auto
  ultimately show ?thesis by (simp add: clean_match_def rstrip_chars_def)
qed

section \<open>Properties of the signal extraction\<close>

lemma add_matches_step:
  "add_matches ms (m # found) =
     (if 5 < length (clean_match m) \<and> clean_match m \<notin> set ms
      then (if 4 \<le> length ms then ms @ [clean_match m]
            else add_matches (ms @ [clean_match m]) found)
      else add_matches ms found)"
  by simp

lemma add_matches_good:
  "distinct ms \<and> (\<forall>e\<in>set ms. 5 < length e)
    \<Longrightarrow> distinct (add_matches ms found) \<and> (\<forall>e\<in>set (add_matches ms found). 5 < length e)"
proof (induction found arbitrary: ms)
  case Nil
  then show ?case by simp
next
  case (Cons m found)
  show ?case
  proof (cases "5 < length (clean_match m) \<and> clean_match m \<notin> set ms")
    case True
    then have ext: "distinct (ms @ [clean_match m]) \<and> (\<forall>e\<in>set (ms @ [clean_match m]). 5 < length e)"
      using Cons.prems by auto
    show ?thesis
    proof (cases "4 \<le> length ms")
      case full: True
      have eq: "add_matches ms (m # found) = ms @ [clean_match m]"
        using True full by (simp only: add_matches_step if_True simp_thms)
      show ?thesis unfolding eq by (rule ext)
    next
      case more: False
      have eq: "add_matches ms (m # found) = add_matches (ms @ [clean_match m]) found"
        using True more by (simp only: add_matches_step if_True if_False simp_thms)
      show ?thesis unfolding eq by (rule Cons.IH[OF ext])
    qed
  next
    case False
    then have eq: "add_matches ms (m # found) = add_matches ms found"
      by (simp only: add_matches_step if_False)
    show ?thesis unfolding eq by (rule Cons.IH[OF Cons.prems])
  qed
qed

lemma foldl_add_matches_good:
  "distinct ms \<Longrightarrow> \<forall>e\<in>set ms. 5 < length e
    \<Longrightarrow> distinct (foldl (\<lambda>matches pattern. add_matches matches (findall ic pattern doc)) ms ps)
      \<and> (\<forall>e\<in>set (foldl (\<lambda>matches pattern. add_matches matches (findall ic pattern doc)) ms ps).
            5 < length e)"
proof (induction ps arbitrary: ms)
  case Nil
  then show ?case by simp
next
  case (Cons p ps)
  from add_matches_good[of ms "findall ic p doc"] Cons.prems
  have "distinct (add_matches ms (findall ic p doc))"
    "\<forall>e\<in>set (add_matches ms (findall ic p doc)). 5 < length e"
    by blast+
  from Cons.IH[OF this] show ?case by simp
qed

lemma extract_pattern_matches_bounded:
  "bounded_category (extract_pattern_matches doc patterns)"
proof -
  let ?all = "foldl (\<lambda>matches pattern. add_matches matches (findall True pattern doc))
                [] patterns"
  have "distinct ?all" "\<forall>e\<in>set ?all. 5 < length e"
    using foldl_add_matches_good[of "[]" True doc patterns] by simp_all
  moreover have "set (take 5 ?all) \<subseteq> set ?all" by (rule set_take_subset)
  ultimately show ?thesis
    by (auto simp: bounded_category_def extract_pattern_matches_def list_all_iff)
qed

lemma extract_hardware_intelligence_fields:
  "infrastructure_needs (extract_hardware_intelligence p c) =
     extract_pattern_matches (lower c) infrastructure_patterns"
  "growth_indicators (extract_hardware_intelligence p c) =
     extract_pattern_matches (lower c) growth_patterns"
  "technical_pain_points (extract_hardware_intelligence p c) =
     extract_pattern_matches (lower c) pain_point_patterns"
  "decision_makers (extract_hardware_intelligence p c) =
     extract_pattern_matches (lower c) decision_maker_patterns"
  "tech_stack (extract_hardware_intelligence p c) =
     extract_pattern_matches (lower c) tech_infrastructure_patterns"
  "hardware_opportunities (extract_hardware_intelligence p c) =
     extract_pattern_matches (lower c) hardware_needs_patterns"
  "urgency_signals (extract_hardware_intelligence p c) =
     extract_pattern_matches (lower c) urgency_patterns"
  "company_scale (extract_hardware_intelligence p c) =
     extract_pattern_matches (lower c) company_scale_patterns"
  "budget_indicators (extract_hardware_intelligence p c) = extract_budget_indicators (lower c)"
  by (simp_all add: extract_hardware_intelligence_def extract_additional_context_def Let_def)

lemma add_matches_nonempty: "ms \<noteq> [] \<Longrightarrow> add_matches ms found \<noteq> []"
  by (induction found arbitrary: ms) auto

lemma foldl_add_matches_nonempty:
  "ms \<noteq> [] \<Longrightarrow>
     foldl (\<lambda>matches pattern. add_matches matches (findall ic pattern doc)) ms ps \<noteq> []"
  by (induction ps arbitrary: ms) (auto simp: add_matches_nonempty)

lemma add_matches_first:
  assumes "found \<noteq> []" "\<forall>m\<in>set found. 5 < length (clean_match m)"
  shows "add_matches [] found \<noteq> []"
proof -
  obtain m rest where "found = m # rest" using assms(1) by (cases found) auto
  then show ?thesis using assms(2) by (auto simp: add_matches_nonempty)
qed

lemma shaped_clean_match:
  assumes "shaped p m" "first_word p" "last_word p" "5 < minlen p"
  shows "5 < length (clean_match m)"
proof -
  from assms have "m \<noteq> []" "is_word (hd m)" "is_word (last m)" "5 < length m"
    by (auto simp: shaped_def)
  then show ?thesis by (simp add: clean_match_id)
qed

lemma extract_pattern_matches_nonempty:
  assumes "\<not> has_group p" "first_word p" "last_word p" "5 < minlen p"
    and "ends True p (s, None) \<noteq> []"
  shows "extract_pattern_matches (a @ s) (p # ps) \<noteq> []"
proof -
  have "findall True p (a @ s) \<noteq> []"
    using assms(5) by (simp add: findall_def findall_at_nonempty)
  moreover have "\<forall>m\<in>set (findall True p (a @ s)). 5 < length (clean_match m)"
    using assms(1-4) findall_at_shaped shaped_clean_match unfolding findall_def by blast
  ultimately have "add_matches [] (findall True p (a @ s)) \<noteq> []"
    by (rule add_matches_first)
  then have "foldl (\<lambda>matches pattern. add_matches matches (findall True pattern (a @ s)))
               [] (p # ps) \<noteq> []"
    by (simp add: foldl_add_matches_nonempty)
  then show ?thesis by (simp add: extract_pattern_matches_def)
qed

lemma contains_split: "contains s sub \<Longrightarrow> \<exists>a b. s = a @ sub @ b"
proof (induction s)
  case Nil
  then show ?case by simp
next
  case (Cons c cs)
  show ?case
  proof (cases "take (length sub) (c # cs) = sub")
    case True
    then have "c # cs = [] @ sub @ drop (length sub) (c # cs)"
      by (metis append_Nil append_take_drop_id)
    then show ?thesis by blast
  next
    case False
    with Cons obtain a b where "cs = a @ sub @ b" by auto
    then have "c # cs = (c # a) @ sub @ b" by simp
    then show ?thesis by blast
  qed
qed

lemma growth_pattern_expanding:
  "\<exists>p ps. growth_patterns = p # ps \<and> \<not> has_group p \<and> first_word p \<and> last_word p
     \<and> 5 < minlen p
     \<and> (\<forall>b. ends True p (''expanding our engineering team'' @ b, None) \<noteq> [])"
  by (simp add: growth_patterns_def W_def Opt_def Plus_def Ws_def chr_eq_def lower_char_def
        in_class_def is_word_def)

lemma urgency_pattern_urgent:
  "\<exists>p ps. urgency_patterns = p # ps \<and> \<not> has_group p \<and> first_word p \<and> last_word p
     \<and> 5 < minlen p
     \<and> (\<forall>b. ends True p (''urgent need for new servers'' @ b, None) \<noteq> [])"
  by (simp add: urgency_patterns_def W_def Opt_def Plus_def Ws_def chr_eq_def lower_char_def
        in_class_def is_word_def)

text \<open>
  C2. The claim is that the budget-indicator extraction returns at most 3 entries, each
  of the form "Financial indicator: $<amount>". The loop leaves only the matches of the
  current pattern when the list reaches three entries, so every later pattern that
  matches adds one more: on the text below the first pattern gives three entries and
  the fifth pattern a fourth.
\<close>

theorem extract_budget_indicators_four_entries:
  "extract_budget_indicators ''budget of $1 budget of $2 budget of $3'' =
     [''Financial indicator: $1'', ''Financial indicator: $2'', ''Financial indicator: $3'',
      ''Financial indicator: $1'']"
  by code_simp

text \<open>
  C3, as amended. For every input text, each of the eight category lists filled by the
  pattern tables (infrastructure needs, growth indicators, technical pain points,
  decision makers, technology stack, hardware opportunities, urgency signals, company
  scale) has at most 5 entries, no two equal entries, and only entries longer than 5
  characters. The budget indicators are not deduplicated.
\<close>

theorem pattern_categories_bounded:
  "list_all bounded_category (pattern_categories (extract_hardware_intelligence intelligence doc))"
  by (simp add: pattern_categories_def extract_hardware_intelligence_fields
        extract_pattern_matches_bounded)

text \<open>
  C3 as stated fails for the budget indicators: the amount of "raised $5" is captured
  by the fourth and by the fifth budget pattern, and both entries are kept.
\<close>

theorem budget_indicators_not_distinct:
  "budget_indicators (extract_hardware_intelligence initial_intelligence ''Raised $5 million'') =
     [''Financial indicator: $5'', ''Financial indicator: $5'']
   \<and> \<not> distinct
        (budget_indicators (extract_hardware_intelligence initial_intelligence ''Raised $5 million''))"
proof -
  have "extract_budget_indicators (lower ''Raised $5 million'') =
          [''Financial indicator: $5'', ''Financial indicator: $5'']"
    by code_simp
  then show ?thesis by (simp add: extract_hardware_intelligence_fields)
qed

text \<open>
  C4. For every input text that contains both "we are expanding our engineering team"
  and "urgent need for new servers", the signal extraction puts at least one entry in
  the growth indicators and at least one in the urgency signals, and the readiness
  score of the resulting profile is at least 23.
\<close>

theorem expanding_and_urgent_signals:
  assumes "contains doc ''we are expanding our engineering team''"
    and "contains doc ''urgent need for new servers''"
  shows "1 \<le> length (growth_indicators (extract_hardware_intelligence intelligence doc))
    \<and> 1 \<le> length (urgency_signals (extract_hardware_intelligence intelligence doc))
    \<and> 23 \<le> calculate_hardware_readiness_score (extract_hardware_intelligence intelligence doc)"
proof -
  let ?p = "extract_hardware_intelligence intelligence doc"
  from contains_split[OF assms(1)] obtain a b
    where "doc = a @ ''we are expanding our engineering team'' @ b" by blast
  then have "lower doc = (lower a @ ''we are '') @ (''expanding our engineering team'' @ lower b)"
    by (simp add: lower_def lower_char_def)
  moreover obtain p ps where "growth_patterns = p # ps" "\<not> has_group p" "first_word p"
      "last_word p" "5 < minlen p"
      "ends True p (''expanding our engineering team'' @ lower b, None) \<noteq> []"
    using growth_pattern_expanding by blast
  ultimately have "extract_pattern_matches (lower doc) growth_patterns \<noteq> []"
    using extract_pattern_matches_nonempty by metis
  then have g: "1 \<le> length (growth_indicators ?p)"
    by (cases "growth_indicators ?p") (simp_all add: extract_hardware_intelligence_fields)
  from contains_split[OF assms(2)] obtain c d
    where "doc = c @ ''urgent need for new servers'' @ d" by blast
  then have "lower doc = lower c @ (''urgent need for new servers'' @ lower d)"
    by (simp add: lower_def lower_char_def)
  moreover obtain q qs where "urgency_patterns = q # qs" "\<not> has_group q" "first_word q"
      "last_word q" "5 < minlen q"
      "ends True q (''urgent need for new servers'' @ lower d, None) \<noteq> []"
    using urgency_pattern_urgent by blast
  ultimately have "extract_pattern_matches (lower doc) urgency_patterns \<noteq> []"
    using extract_pattern_matches_nonempty by metis
  then have u: "1 \<le> length (urgency_signals ?p)"
    by (cases "urgency_signals ?p") (simp_all add: extract_hardware_intelligence_fields)
  have "23 \<le> score_formula i (length (growth_indicators ?p)) t (length (urgency_signals ?p)) k"
    for i t k
    using g u by (simp add: score_formula_def)
  then show ?thesis using g u by (simp add: score_eq_formula)
qed

theorem expanding_and_urgent_signals_witness:
  "contains ''we are expanding our engineering team. urgent need for new servers!''
     ''we are expanding our engineering team''
   \<and> contains ''we are expanding our engineering team. urgent need for new servers!''
     ''urgent need for new servers''
   \<and> 1 \<le> length (growth_indicators (extract_hardware_intelligence initial_intelligence
          ''we are expanding our engineering team. urgent need for new servers!''))
   \<and> 1 \<le> length (urgency_signals (extract_hardware_intelligence initial_intelligence
          ''we are expanding our engineering team. urgent need for new servers!''))
   \<and> 23 \<le> calculate_hardware_readiness_score
        (extract_hardware_intelligence initial_intelligence
          ''we are expanding our engineering team. urgent need for new servers!'')"
proof -
  let ?doc = "''we are expanding our engineering team. urgent need for new servers!''"
  have h1: "contains ?doc ''we are expanding our engineering team''" by code_simp
  have h2: "contains ?doc ''urgent need for new servers''" by code_simp
  from expanding_and_urgent_signals[OF h1 h2, of initial_intelligence] h1 h2
  show ?thesis by simp
qed

section \<open>Properties of the fetcher and the page selector\<close>

lemma get_with_retry_cases:
  "get_with_retry env n url =
     (case http_get env n url of
        Returned r \<Rightarrow> (Returned r, Suc n)
      | Raised e \<Rightarrow> if is_request_exception e then (http_get env (Suc n) url, Suc (Suc n))
                    else (Raised e, Suc n))"
  by (simp add: get_with_retry_def)

lemma scrape_single_page_count:
  "urlparse_scheme env url = Inr scheme
    \<Longrightarrow> snd (scrape_single_page env n url) = snd (get_with_retry env n (force_https scheme url))"
  by (cases "get_with_retry env n (force_https scheme url)")
     (simp add: scrape_single_page_def split: get_result.splits sum.splits)

lemma scrape_single_page_raised:
  "urlparse_scheme env url = Inr scheme
    \<Longrightarrow> fst (get_with_retry env n (force_https scheme url)) = Raised e
    \<Longrightarrow> fst (scrape_single_page env n url) = handle_exn e"
  by (cases "get_with_retry env n (force_https scheme url)")
     (simp add: scrape_single_page_def)

lemma scrape_single_page_returned:
  "urlparse_scheme env url = Inr scheme
    \<Longrightarrow> fst (get_with_retry env n (force_https scheme url)) = Returned r
    \<Longrightarrow> fst (scrape_single_page env n url) = page_of_response r"
  by (cases "get_with_retry env n (force_https scheme url)")
     (simp add: scrape_single_page_def)

lemma scrape_single_page_unparsed:
  "urlparse_scheme env url = Inl m \<Longrightarrow> snd (scrape_single_page env n url) = n"
  by (simp add: scrape_single_page_def)

text \<open>
  C7, as amended. For every URL, a fetch whose first request raises any exception of
  the requests library (a secure-transport (SSL) error as well as a timeout, a
  connection error or an HTTP error status) makes exactly one retry, two requests in
  all, and reports the outcome of the retry: the page made from its response when it
  returns one, and the exception when it raises too, an SSL error as "SSL Error: ...".
  A fetch whose first request returns a response reports the page made from it, and
  one whose first request raises an exception from outside the requests library
  reports that exception; both make one request only. A URL that cannot be parsed
  makes none.
\<close>

theorem retry_on_every_request_exception:
  "(urlparse_scheme env url = Inl m \<longrightarrow> snd (scrape_single_page env n url) = n)
   \<and> (urlparse_scheme env url = Inr scheme \<longrightarrow>
        (http_get env n (force_https scheme url) = Raised e \<and> is_request_exception e
            \<longrightarrow> snd (scrape_single_page env n url) = n + 2
                \<and> (http_get env (Suc n) (force_https scheme url) = Raised e'
                     \<longrightarrow> fst (scrape_single_page env n url) = handle_exn e')
                \<and> (http_get env (Suc n) (force_https scheme url) = Returned r'
                     \<longrightarrow> fst (scrape_single_page env n url) = page_of_response r'))
        \<and> (http_get env n (force_https scheme url) = Returned r
            \<longrightarrow> snd (scrape_single_page env n url) = n + 1
                \<and> fst (scrape_single_page env n url) = page_of_response r)
        \<and> (http_get env n (force_https scheme url) = Raised e \<and> \<not> is_request_exception e
            \<longrightarrow> snd (scrape_single_page env n url) = n + 1
                \<and> fst (scrape_single_page env n url) = handle_exn e))"
proof (cases "urlparse_scheme env url")
  case (Inl msg)
  then show ?thesis by (simp add: scrape_single_page_unparsed)
next
  case (Inr sch)
  then show ?thesis
    using scrape_single_page_count[OF Inr, of n] scrape_single_page_raised[OF Inr, of n]
      scrape_single_page_returned[OF Inr, of n]
    by (auto simp: get_with_retry_cases)
qed

theorem retry_on_every_request_exception_witness:
  "urlparse_scheme ssl_env ''https://example.com'' = Inr ''https''
   \<and> http_get ssl_env 0 (force_https ''https'' ''https://example.com'')
       = Raised (SSLError ''certificate verify failed'')
   \<and> is_request_exception (SSLError ''certificate verify failed'')
   \<and> snd (scrape_single_page ssl_env 0 ''https://example.com'') = 2
   \<and> fst (scrape_single_page ssl_env 0 ''https://example.com'')
       = failed_page ''SSL Error: certificate verify failed''
   \<and> http_get ssl_once_env 0 (force_https ''https'' ''https://example.com'')
       = Raised (SSLError ''handshake failure'')
   \<and> http_get ssl_once_env 1 (force_https ''https'' ''https://example.com'')
       = Returned example_response
   \<and> fst (scrape_single_page ssl_once_env 0 ''https://example.com'')
       = page_of_response example_response"
proof -
  have h': "urlparse_scheme ssl_once_env ''https://example.com'' = Inr ''https''"
    by (simp add: ssl_once_env_def online_env_def example_scheme_def)
  have g0: "http_get ssl_once_env 0 u = Raised (SSLError ''handshake failure'')" for u
    by (simp add: ssl_once_env_def online_env_def)
  have g1: "http_get ssl_once_env (Suc 0) u = Returned example_response" for u
    by (simp add: ssl_once_env_def online_env_def)
  have once: "fst (scrape_single_page ssl_once_env 0 ''https://example.com'')
       = page_of_response example_response"
    using retry_on_every_request_exception[where env = ssl_once_env
        and url = "''https://example.com''" and n = 0 and scheme = "''https''"
        and e = "SSLError ''handshake failure''" and r' = example_response] h' g0 g1
    by simp
  have h: "urlparse_scheme ssl_env ''https://example.com'' = Inr ''https''"
    by (simp add: ssl_env_def online_env_def example_scheme_def)
  have g: "http_get ssl_env k u = Raised (SSLError ''certificate verify failed'')" for k u
    by (simp add: ssl_env_def online_env_def)
  from retry_on_every_request_exception[where env = ssl_env and url = "''https://example.com''"
      and n = 0 and scheme = "''https''" and e = "SSLError ''certificate verify failed''"
      and e' = "SSLError ''certificate verify failed''"] h g g0 g1 once
  show ?thesis by simp
qed

text \<open>
  C7 as stated fails: when the first request raises an SSL error, the inner
  \<^verbatim>\<open>except RequestException\<close> clause catches it and a second request is made; here the
  second request succeeds and the fetch reports success.
\<close>

theorem ssl_error_is_retried:
  "http_get ssl_once_env 0 ''https://example.com'' = Raised (SSLError ''handshake failure'')
   \<and> snd (scrape_single_page ssl_once_env 0 ''https://example.com'') = 2
   \<and> success (fst (scrape_single_page ssl_once_env 0 ''https://example.com''))"
  by (simp add: ssl_once_env_def online_env_def example_scheme_def scrape_single_page_def
        page_of_response_def get_with_retry_def force_https_def example_response_def
        lower_def lower_char_def)

lemma keyword_loop_pages:
  "pages st = base_url # found_pages st \<and> length (found_pages st) \<le> 4 \<Longrightarrow>
     pages (keyword_loop env base_url link kws st)
       = base_url # found_pages (keyword_loop env base_url link kws st)
     \<and> length (found_pages (keyword_loop env base_url link kws st)) \<le> 4"
  by (induction kws) (auto split: sum.splits)

lemma category_loop_pages:
  "pages st = base_url # found_pages st \<and> length (found_pages st) \<le> 4 \<Longrightarrow>
     pages (category_loop env base_url link categories st)
       = base_url # found_pages (category_loop env base_url link categories st)
     \<and> length (found_pages (category_loop env base_url link categories st)) \<le> 4"
proof (induction categories arbitrary: st)
  case Nil
  then show ?case by simp
next
  case (Cons cat categories)
  obtain category kws where cat: "cat = (category, kws)" by (cases cat)
  let ?st = "keyword_loop env base_url link kws st"
  have inv: "pages ?st = base_url # found_pages ?st \<and> length (found_pages ?st) \<le> 4"
    using Cons.prems by (rule keyword_loop_pages)
  show ?case
  proof (cases "raised ?st \<or> length (found_pages ?st) \<ge> 4")
    case True
    then show ?thesis using inv cat by (simp add: Let_def)
  next
    case False
    then have "category_loop env base_url link (cat # categories) st
                 = category_loop env base_url link categories ?st"
      using cat by (simp add: Let_def)
    then show ?thesis using Cons.IH[OF inv] by simp
  qed
qed

lemma link_loop_pages:
  "pages st = base_url # found_pages st \<and> length (found_pages st) \<le> 4 \<Longrightarrow>
     pages (link_loop env base_url links st) = base_url # found_pages (link_loop env base_url links st)
     \<and> length (found_pages (link_loop env base_url links st)) \<le> 4"
proof (induction links arbitrary: st)
  case Nil
  then show ?case by simp
next
  case (Cons link links)
  let ?st = "category_loop env base_url link priority_pages st"
  have inv: "pages ?st = base_url # found_pages ?st \<and> length (found_pages ?st) \<le> 4"
    using Cons.prems by (rule category_loop_pages)
  show ?case
  proof (cases "raised ?st \<or> length (found_pages ?st) \<ge> 4")
    case True
    then show ?thesis using inv by (simp add: Let_def)
  next
    case False
    then have "link_loop env base_url (link # links) st = link_loop env base_url links ?st"
      by (simp add: Let_def)
    then show ?thesis using Cons.IH[OF inv] by simp
  qed
qed

lemma get_strategic_pages_failed:
  "\<not> success (fst (scrape_single_page env n base_url))
    \<Longrightarrow> get_strategic_pages env n base_url = ([base_url], snd (scrape_single_page env n base_url))"
  by (cases "scrape_single_page env n base_url") (simp add: get_strategic_pages_def)

text \<open>
  C6. For every base URL, page selection returns between 1 and 5 URLs, the first of
  which is the base URL; and when the fetch of the home page fails, it returns exactly
  the list that holds the base URL alone.
\<close>

theorem strategic_pages_bounds:
  "1 \<le> length (fst (get_strategic_pages env n base_url))
   \<and> length (fst (get_strategic_pages env n base_url)) \<le> 5
   \<and> hd (fst (get_strategic_pages env n base_url)) = base_url
   \<and> (\<not> success (fst (scrape_single_page env n base_url))
        \<longrightarrow> fst (get_strategic_pages env n base_url) = [base_url])"
proof (cases "success (fst (scrape_single_page env n base_url))")
  case False
  then show ?thesis by (simp add: get_strategic_pages_failed)
next
  case True
  obtain page n' where page: "scrape_single_page env n base_url = (page, n')"
    by (cases "scrape_single_page env n base_url")
  show ?thesis
  proof (cases "soup page")
    case None
    then show ?thesis using True page by (simp add: get_strategic_pages_def)
  next
    case (Some doc)
    let ?st = "link_loop env base_url (anchors doc)
                 \<lparr> found_pages = [], pages = [base_url], raised = False \<rparr>"
    have "pages ?st = base_url # found_pages ?st \<and> length (found_pages ?st) \<le> 4"
      by (rule link_loop_pages) simp
    moreover have "fst (get_strategic_pages env n base_url) = take 5 (pages ?st)"
      using True page Some by (simp add: get_strategic_pages_def)
    ultimately show ?thesis using True by simp
  qed
qed

theorem strategic_pages_bounds_witness:
  "\<not> success (fst (scrape_single_page offline_env 0 ''https://techflow.example.com''))
   \<and> fst (get_strategic_pages offline_env 0 ''https://techflow.example.com'')
       = [''https://techflow.example.com'']
   \<and> length (fst (get_strategic_pages online_env 0 ''https://techflow.example.com'')) \<le> 5
   \<and> hd (fst (get_strategic_pages online_env 0 ''https://techflow.example.com''))
       = ''https://techflow.example.com''"
proof -
  have "\<not> success (fst (scrape_single_page offline_env 0 ''https://techflow.example.com''))"
    by (simp add: offline_env_def online_env_def example_scheme_def scrape_single_page_def
          get_with_retry_def failed_page_def)
  then show ?thesis
    using strategic_pages_bounds[of offline_env 0 "''https://techflow.example.com''"]
      strategic_pages_bounds[of online_env 0 "''https://techflow.example.com''"]
    by simp
qed

section \<open>Properties of the orchestrator\<close>

lemma scrape_pages_all_failed:
  "(\<And>k url. \<not> success (fst (scrape_single_page env k url)))
    \<Longrightarrow> fst (scrape_pages env n page_urls all_content) = all_content"
proof (induction page_urls arbitrary: n)
  case Nil
  then show ?case by simp
next
  case (Cons page_url page_urls)
  obtain page n' where page: "scrape_single_page env n page_url = (page, n')"
    by (cases "scrape_single_page env n page_url")
  then have "\<not> success page" using Cons.prems[of n page_url] by simp
  then show ?case using page Cons.IH[OF Cons.prems, of n'] by simp
qed

lemma failed_profile_no_content: "failed_profile (analyse_content [])"
  by (simp add: failed_profile_def analyse_content_def initial_intelligence_def)

lemma scrape_company_website_result:
  assumes "company ''name'' = Some name" "company ''website'' = Some website"
  shows "\<exists>doc n'. scrape_company_website env n company =
           Inr (company(''hardware_intelligence'' \<mapsto> PIntel (analyse_content doc)), n')
         \<and> ((\<forall>k url. \<not> success (fst (scrape_single_page env k url))) \<longrightarrow> doc = [])"
proof (cases website)
  case (PStr url)
  obtain ps n1 where ps: "get_strategic_pages env n url = (ps, n1)"
    by (cases "get_strategic_pages env n url")
  obtain doc n2 where doc: "scrape_pages env n1 ps [] = (doc, n2)"
    by (cases "scrape_pages env n1 ps []")
  have "doc = []" if "\<forall>k url. \<not> success (fst (scrape_single_page env k url))"
    using scrape_pages_all_failed[of env n1 ps "[]"] that doc by simp
  moreover have "scrape_company_website env n company =
      Inr (company(''hardware_intelligence'' \<mapsto> PIntel (analyse_content doc)), n2)"
    using assms PStr ps doc by (simp add: scrape_company_website_def)
  ultimately show ?thesis by blast
next
  case (PInt i)
  then have "scrape_company_website env n company =
      Inr (company(''hardware_intelligence'' \<mapsto> PIntel (analyse_content [])), n)"
    using assms by (simp add: scrape_company_website_def)
  then show ?thesis by blast
next
  case PNone
  then have "scrape_company_website env n company =
      Inr (company(''hardware_intelligence'' \<mapsto> PIntel (analyse_content [])), n)"
    using assms by (simp add: scrape_company_website_def)
  then show ?thesis by blast
next
  case (PIntel p)
  then have "scrape_company_website env n company =
      Inr (company(''hardware_intelligence'' \<mapsto> PIntel (analyse_content [])), n)"
    using assms by (simp add: scrape_company_website_def)
  then show ?thesis by blast
qed

text \<open>
  C5. For every company (with a name and a website) whose every page fetch fails,
  processing the company raises nothing and returns the company with a profile in which
  scraping_success is false, the readiness score is 0, every category list is empty and
  scraping_error is a non-empty message.
\<close>

theorem all_fetches_failed_profile:
  assumes "company ''name'' = Some name" and "company ''website'' = Some website"
    and "\<forall>k url. \<not> success (fst (scrape_single_page env k url))"
  shows "\<exists>p n'. scrape_company_website env n company =
            Inr (company(''hardware_intelligence'' \<mapsto> PIntel p), n')
          \<and> failed_profile p"
  using scrape_company_website_result[OF assms(1,2), of env n] assms(3)
    failed_profile_no_content by auto

theorem all_fetches_failed_profile_witness:
  "techflow ''name'' = Some (PStr ''TechFlow Solutions'')
   \<and> techflow ''website'' = Some (PStr ''https://techflow.example.com'')
   \<and> (\<exists>p n'. scrape_company_website offline_env 0 techflow =
                Inr (techflow(''hardware_intelligence'' \<mapsto> PIntel p), n')
              \<and> failed_profile p
              \<and> scraping_error p = Some ''No content extracted from any pages'')"
proof -
  have h1: "techflow ''name'' = Some (PStr ''TechFlow Solutions'')"
    and h2: "techflow ''website'' = Some (PStr ''https://techflow.example.com'')"
    by (simp_all add: techflow_def)
  have h3: "\<forall>k url. \<not> success (fst (scrape_single_page offline_env k url))"
    by (simp add: offline_env_def online_env_def example_scheme_def scrape_single_page_def
          get_with_retry_def failed_page_def)
  from all_fetches_failed_profile[OF h1 h2 h3, of 0] obtain p n'
    where r: "scrape_company_website offline_env 0 techflow =
                Inr (techflow(''hardware_intelligence'' \<mapsto> PIntel p), n')" "failed_profile p"
    by blast
  obtain doc m where d: "scrape_company_website offline_env 0 techflow =
           Inr (techflow(''hardware_intelligence'' \<mapsto> PIntel (analyse_content doc)), m)"
      "doc = []"
    using scrape_company_website_result[OF h1 h2, of offline_env 0] h3 by blast
  from r(1) d have e: "techflow(''hardware_intelligence'' \<mapsto> PIntel p) =
      techflow(''hardware_intelligence'' \<mapsto> PIntel (analyse_content []))"
    by simp
  from fun_cong[OF e, of "''hardware_intelligence''"] have "p = analyse_content []"
    by simp
  then have "scraping_error p = Some ''No content extracted from any pages''"
    by (simp add: analyse_content_def initial_intelligence_def)
  with r h1 h2 show ?thesis by blast
qed

text \<open>
  C10. For every input company record (with a name and a website), processing the
  company returns a record in which every field of the input other than
  hardware_intelligence is present with the value it had, and in which
  hardware_intelligence holds the profile: the record is the input with that one field
  set.
\<close>

theorem input_fields_preserved:
  assumes "company ''name'' = Some name" and "company ''website'' = Some website"
  shows "\<exists>result n'. scrape_company_website env n company = Inr (result, n')
           \<and> enhanced_from company result
           \<and> (\<forall>field. field \<noteq> ''hardware_intelligence'' \<longrightarrow> result field = company field)
           \<and> (\<exists>p. result ''hardware_intelligence'' = Some (PIntel p))"
  using scrape_company_website_result[OF assms, of env n]
  by (auto simp: enhanced_from_def)

theorem input_fields_preserved_witness:
  "\<exists>result n'. scrape_company_website online_env 0 techflow = Inr (result, n')
     \<and> result ''name'' = Some (PStr ''TechFlow Solutions'')
     \<and> result ''website'' = Some (PStr ''https://techflow.example.com'')
     \<and> result ''industry'' = Some (PStr ''Software Development'')
     \<and> result ''employee_count'' = Some (PInt 75)
     \<and> result ''location'' = Some (PStr ''San Francisco, CA'')
     \<and> result ''founded_year'' = None
     \<and> (\<exists>p. result ''hardware_intelligence'' = Some (PIntel p))"
proof -
  have h1: "techflow ''name'' = Some (PStr ''TechFlow Solutions'')"
    and h2: "techflow ''website'' = Some (PStr ''https://techflow.example.com'')"
    by (simp_all add: techflow_def)
  from input_fields_preserved[OF h1 h2, of online_env 0] obtain result n'
    where r: "scrape_company_website online_env 0 techflow = Inr (result, n')"
      "\<forall>field. field \<noteq> ''hardware_intelligence'' \<longrightarrow> result field = techflow field"
      "\<exists>p. result ''hardware_intelligence'' = Some (PIntel p)"
    by blast
  from r(2) have "result ''name'' = techflow ''name''" "result ''website'' = techflow ''website''"
    "result ''industry'' = techflow ''industry''"
    "result ''employee_count'' = techflow ''employee_count''"
    "result ''location'' = techflow ''location''"
    "result ''founded_year'' = techflow ''founded_year''"
    by simp_all
  then have "result ''name'' = Some (PStr ''TechFlow Solutions'')"
    "result ''website'' = Some (PStr ''https://techflow.example.com'')"
    "result ''industry'' = Some (PStr ''Software Development'')"
    "result ''employee_count'' = Some (PInt 75)"
    "result ''location'' = Some (PStr ''San Francisco, CA'')"
    "result ''founded_year'' = None"
    by (simp_all add: techflow_def)
  with r(1,3) show ?thesis by blast
qed

lemma future_result_enhanced:
  "future_result timed_out worker_env i company = Inr result \<Longrightarrow> enhanced_from company result"
proof -
  assume a: "future_result timed_out worker_env i company = Inr result"
  then have "\<exists>n. scrape_company_website (worker_env i) 0 company = Inr (result, n)"
    by (auto simp: future_result_def split: if_splits sum.splits py_error.splits)
  then obtain n where n: "scrape_company_website (worker_env i) 0 company = Inr (result, n)" ..
  then obtain name website where "company ''name'' = Some name" "company ''website'' = Some website"
    by (auto simp: scrape_company_website_def split: option.splits)
  from scrape_company_website_result[OF this, of "worker_env i" 0] n
  show ?thesis by (auto simp: enhanced_from_def)
qed

lemma collect_results_all:
  "\<forall>c\<in>set companies. c ''name'' \<noteq> None \<Longrightarrow>
     \<exists>rs. collect_results timed_out worker_env i companies acc = Inr (acc @ rs)
          \<and> list_all2 enhanced_from companies rs"
proof (induction companies arbitrary: i acc)
  case Nil
  then show ?case by simp
next
  case (Cons company companies)
  then obtain name where name: "company ''name'' = Some name" by auto
  have rest: "\<forall>c\<in>set companies. c ''name'' \<noteq> None" using Cons.prems by simp
  show ?case
  proof (cases "future_result timed_out worker_env i company")
    case (Inr enhanced_company)
    from Cons.IH[OF rest, of "Suc i" "acc @ [enhanced_company]"] obtain rs
      where rs: "collect_results timed_out worker_env (Suc i) companies (acc @ [enhanced_company])
                   = Inr ((acc @ [enhanced_company]) @ rs)"
        "list_all2 enhanced_from companies rs" by blast
    have "collect_results timed_out worker_env i (company # companies) acc
            = Inr (acc @ (enhanced_company # rs))"
      using Inr rs(1) by simp
    moreover have "list_all2 enhanced_from (company # companies) (enhanced_company # rs)"
      using rs(2) future_result_enhanced[OF Inr] by simp
    ultimately show ?thesis by blast
  next
    case (Inl msg)
    let ?r = "company(''hardware_intelligence'' \<mapsto> PIntel (error_intelligence msg))"
    from Cons.IH[OF rest, of "Suc i" "acc @ [?r]"] obtain rs
      where rs: "collect_results timed_out worker_env (Suc i) companies (acc @ [?r])
                   = Inr ((acc @ [?r]) @ rs)"
        "list_all2 enhanced_from companies rs" by blast
    have "collect_results timed_out worker_env i (company # companies) acc = Inr (acc @ (?r # rs))"
      using Inl name rs(1) by simp
    moreover have "list_all2 enhanced_from (company # companies) (?r # rs)"
      using rs(2) by (auto simp: enhanced_from_def)
    ultimately show ?thesis by blast
  qed
qed

text \<open>
  C9. For every list of N companies (each with a name) and every worker-pool size of at
  least 1, also one smaller than N, whichever tasks time out or fail, batch processing
  returns exactly N records, and the record at each position is the input company at
  that position with its hardware_intelligence field set.
\<close>

theorem batch_results_in_input_order:
  assumes "0 < max_workers" and "\<forall>c\<in>set companies. c ''name'' \<noteq> None"
  shows "\<exists>results. scrape_multiple_companies timed_out worker_env companies max_workers
             = Inr results
           \<and> length results = length companies
           \<and> list_all2 enhanced_from companies results
           \<and> (\<forall>i<length companies. \<forall>field. field \<noteq> ''hardware_intelligence''
                 \<longrightarrow> (results ! i) field = (companies ! i) field)"
proof -
  from collect_results_all[OF assms(2), of timed_out worker_env 0 "[]"] obtain rs
    where rs: "collect_results timed_out worker_env 0 companies [] = Inr rs"
      "list_all2 enhanced_from companies rs" by auto
  have "(rs ! i) field = (companies ! i) field"
    if "i < length companies" "field \<noteq> ''hardware_intelligence''" for i field
    using list_all2_nthD[OF rs(2) that(1)] that(2) by (auto simp: enhanced_from_def)
  then show ?thesis
    using rs assms(1) list_all2_lengthD[OF rs(2)] by (simp add: scrape_multiple_companies_def)
qed

theorem batch_results_in_input_order_witness:
  "(0::int) < 1 \<and> techflow ''name'' \<noteq> None \<and> datacore ''name'' \<noteq> None
   \<and> (\<exists>results. scrape_multiple_companies (\<lambda>i. i = 0) (\<lambda>i. online_env) [techflow, datacore] 1
                    = Inr results
         \<and> length results = 2
         \<and> (results ! 0) ''name'' = Some (PStr ''TechFlow Solutions'')
         \<and> (results ! 1) ''name'' = Some (PStr ''DataCore Analytics''))"
proof -
  have h: "\<forall>c\<in>set [techflow, datacore]. c ''name'' \<noteq> None"
    by (simp add: techflow_def datacore_def)
  from batch_results_in_input_order[OF _ h, of 1 "\<lambda>i. i = 0" "\<lambda>i. online_env"]
  obtain results where r:
    "scrape_multiple_companies (\<lambda>i. i = 0) (\<lambda>i. online_env) [techflow, datacore] 1 = Inr results"
    "length results = length [techflow, datacore]"
    "\<forall>i<length [techflow, datacore]. \<forall>field. field \<noteq> ''hardware_intelligence''
        \<longrightarrow> (results ! i) field = ([techflow, datacore] ! i) field"
    by auto
  from r(3) have "(results ! 0) ''name'' = techflow ''name''"
    "(results ! 1) ''name'' = datacore ''name''"
    by (simp_all add: nth_Cons')
  then have "(results ! 0) ''name'' = Some (PStr ''TechFlow Solutions'')"
    "(results ! 1) ''name'' = Some (PStr ''DataCore Analytics'')"
    by (simp_all add: techflow_def datacore_def)
  with r(1,2) h show ?thesis by auto
qed

end
